theory Spec2Isabelle
  imports Complex_Main
begin

section \<open>The bulk loader: data model\<close>

text \<open>
  The program is the single file \<^verbatim>\<open>cmd/es-bulk-loader/main.go\<close>. Its inputs are the parsed
  flags, the files it reads and the answers of the Elasticsearch cluster; its observable
  behaviour is the sequence of log lines, usage output and HTTP requests it produces, and the
  way the process ends. The model makes all of these explicit.

  The flags, after \<^verbatim>\<open>flag.Parse()\<close>. The batch size is a Go \<^verbatim>\<open>int\<close>, taken as 64 bits wide.
\<close>

record config =
  url :: string
  insecure :: bool
  index :: string
  settingsFile :: string
  mappingsFile :: string
  dataFile :: string
  batchSize :: int
  deleteIndex :: bool
  addToIndex :: bool
  user :: string
  pass :: string
  apiKey :: string

text \<open>The fields of \<^verbatim>\<open>elasticsearch.Config\<close> that the program sets.\<close>

record es_config =
  Addresses :: "string list"
  InsecureSkipVerify :: bool
  Username :: string
  Password :: string
  APIKey :: string

datatype level = Info | Warn | Fatal

text \<open>
  What the program does to the outside: a log line with its level and message, the
  "Batch inserted" line with its \<^verbatim>\<open>inserted\<close> and \<^verbatim>\<open>total\<close> fields, the usage text, the
  construction of the client, and the four kinds of request. Timing fields are left out.
\<close>

datatype event =
    Log level string
  | BatchInserted int int
  | Usage
  | NewClient es_config
  | IndicesExists string
  | IndicesDelete string
  | IndicesCreate string string
  | Bulk string

text \<open>The process ends by \<^verbatim>\<open>os.Exit\<close> (or by returning from main, which is exit code 0) or by a
  run-time panic.\<close>

datatype status = Exit nat | Panic

text \<open>A call of the client returns \<^verbatim>\<open>(res, err)\<close>: a transport error, or a response with a
  status code.\<close>

datatype response = TransportError | Status nat

text \<open>
  The environment of one run: the file system as seen by \<^verbatim>\<open>os.ReadFile\<close> (no entry: the read
  fails), whether \<^verbatim>\<open>elasticsearch.NewClient\<close> succeeds, and the cluster's answers. The answer to
  a bulk request is indexed by the number of bulk requests made before it.
\<close>

record world =
  files :: "string \<Rightarrow> string option"
  new_client :: "es_config \<Rightarrow> bool"
  exists_resp :: response
  delete_resp :: response
  create_resp :: response
  bulk_resp :: "nat \<Rightarrow> response"

text \<open>
  The package \<^verbatim>\<open>encoding/json\<close> is not part of the repository. Its three uses are parameters:
  \<^verbatim>\<open>json.Unmarshal\<close> of the data file into a slice of documents (no result: an error),
  \<^verbatim>\<open>json.Marshal\<close> of a document, and \<^verbatim>\<open>json.Marshal\<close> of the action map
  \<^verbatim>\<open>{"index": {"_index": name}}\<close> for an index name. Documents are an opaque type. The last
  field is \<^verbatim>\<open>json.Unmarshal\<close> of one line into one document; the program does not call it, it
  is what parsing a line of a request body back means.
\<close>

record 'd json =
  unmarshal :: "string \<Rightarrow> 'd list option"
  marshal_doc :: "'d \<Rightarrow> string"
  marshal_meta :: "string \<Rightarrow> string"
  unmarshal_doc :: "string \<Rightarrow> 'd option"

section \<open>Sequencing with a trace and early exit\<close>

datatype 'a result = Halt status | Value 'a

type_synonym 'a prog = "event list \<times> 'a result"

definition ret :: "'a \<Rightarrow> 'a prog" where
  "ret a = ([], Value a)"

definition emit :: "event \<Rightarrow> unit prog" where
  "emit e = ([e], Value ())"

definition thn :: "'a prog \<Rightarrow> ('a \<Rightarrow> 'b prog) \<Rightarrow> 'b prog" where
  "thn m k =
     (case m of
        (t, Halt s) \<Rightarrow> (t, Halt s)
      | (t, Value a) \<Rightarrow> (case k a of (t', r) \<Rightarrow> (t @ t', r)))"

text \<open>\<^verbatim>\<open>log.Fatal().Msg(m)\<close> writes the line and calls \<^verbatim>\<open>os.Exit(1)\<close>.\<close>

definition fatal :: "string \<Rightarrow> 'a prog" where
  "fatal msg = ([Log Fatal msg], Halt (Exit 1))"

text \<open>\<^verbatim>\<open>checkErr(context, err)\<close>; the flag says whether \<^verbatim>\<open>err != nil\<close>, the last argument is the
  rest of the program.\<close>

definition checkErr :: "string \<Rightarrow> bool \<Rightarrow> 'a prog \<Rightarrow> 'a prog" where
  "checkErr ctx err k = (if err then fatal (''Error during '' @ ctx) else k)"

section \<open>The steps of main\<close>

text \<open>Lines 44 to 53: the two checks on the flags.\<close>

definition validate :: "config \<Rightarrow> unit prog" where
  "validate c =
     (if (user c \<noteq> [] \<or> pass c \<noteq> []) \<and> apiKey c \<noteq> [] then
        ([Log Info ''Cannot use both basic auth and API key. Choose one method.'', Usage],
         Halt (Exit 1))
      else if index c = [] \<or> dataFile c = [] then ([Usage], Halt (Exit 1))
      else ret ())"

text \<open>Lines 56 to 74: the client configuration.\<close>

definition client_config :: "config \<Rightarrow> es_config" where
  "client_config c =
     (let cfg = \<lparr>Addresses = [url c], InsecureSkipVerify = insecure c,
                 Username = [], Password = [], APIKey = []\<rparr>;
          cfg = (if user c \<noteq> [] \<and> pass c \<noteq> []
                 then cfg\<lparr>Username := user c, Password := pass c\<rparr> else cfg);
          cfg = (if apiKey c \<noteq> [] then cfg\<lparr>APIKey := apiKey c\<rparr> else cfg)
      in cfg)"

definition newClient :: "world \<Rightarrow> es_config \<Rightarrow> unit prog" where
  "newClient W cfg =
     thn (emit (NewClient cfg)) (\<lambda>_.
     checkErr ''creating Elasticsearch client'' (\<not> new_client W cfg) (ret ()))"

text \<open>\<^verbatim>\<open>indexExists\<close> returns \<^verbatim>\<open>(bool, error)\<close>; the second component says whether the error
  is set.\<close>

definition indexExists :: "world \<Rightarrow> string \<Rightarrow> (bool \<times> bool) prog" where
  "indexExists W idx =
     thn (emit (IndicesExists idx)) (\<lambda>_.
     case exists_resp W of
       TransportError \<Rightarrow> ret (False, True)
     | Status n \<Rightarrow>
         if n = 200 then ret (True, False)
         else if n = 404 then ret (False, False)
         else ret (False, True))"

text \<open>\<^verbatim>\<open>res.IsError()\<close> of the client library: a status code above 299.\<close>

fun IsError :: "response \<Rightarrow> bool" where
  "IsError TransportError = False"
| "IsError (Status n) = (n > 299)"

definition deleteAndCheck :: "world \<Rightarrow> string \<Rightarrow> unit prog" where
  "deleteAndCheck W idx =
     thn (emit (IndicesDelete idx)) (\<lambda>_.
     checkErr ''deleting index'' (delete_resp W = TransportError)
       (if IsError (delete_resp W) then fatal ''Failed to delete index'' else ret ()))"

text \<open>Lines 82 to 108: the switch on the two flags. The result is the new value of the
  variable \<^verbatim>\<open>exists\<close>.\<close>

definition lifecycle :: "world \<Rightarrow> config \<Rightarrow> bool \<Rightarrow> bool prog" where
  "lifecycle W c ex =
     (if ex then
        (if addToIndex c \<and> deleteIndex c then
           thn (emit (Log Info ''Deleting and recreating index before adding documents'')) (\<lambda>_.
           thn (deleteAndCheck W (index c)) (\<lambda>_. ret False))
         else if deleteIndex c then
           thn (emit (Log Info ''Deleting index'')) (\<lambda>_.
           thn (deleteAndCheck W (index c)) (\<lambda>_. ret False))
         else if addToIndex c then
           thn (emit (Log Info ''Appending documents to existing index'')) (\<lambda>_. ret True)
         else fatal ''Index exists. Use -delete to recreate or -add to append.'')
      else
        thn (if deleteIndex c
             then emit (Log Warn ''Index does not exist. Nothing to delete.'') else ret ()) (\<lambda>_.
        thn (if addToIndex c
             then emit (Log Info ''Creating index to append documents'')
             else emit (Log Info ''Creating index before loading data'')) (\<lambda>_. ret False)))"

text \<open>\<^verbatim>\<open>buildCreateIndexBody\<close>, lines 198 to 219.\<close>

definition buildCreateIndexBody :: "world \<Rightarrow> string \<Rightarrow> string \<Rightarrow> string prog" where
  \<open>buildCreateIndexBody W sf mf =
     thn (if sf \<noteq> [] then
            (case files W sf of
               Some content \<Rightarrow> ret content
             | None \<Rightarrow> fatal ''Reading settings file'')
          else ret ''{}'') (\<lambda>settings.
     thn (if mf \<noteq> [] then
            (case files W mf of
               Some content \<Rightarrow> ret content
             | None \<Rightarrow> fatal ''Reading mappings file'')
          else ret ''{}'') (\<lambda>mappings.
     ret (''{"settings": '' @ settings @ '', "mappings": '' @ mappings @ ''}'')))\<close>

text \<open>Lines 110 to 117. Only the transport error of the create request is looked at.\<close>

definition createIndex :: "world \<Rightarrow> config \<Rightarrow> bool \<Rightarrow> unit prog" where
  "createIndex W c ex =
     (if \<not> ex then
        thn (buildCreateIndexBody W (settingsFile c) (mappingsFile c)) (\<lambda>body.
        thn (emit (IndicesCreate (index c) body)) (\<lambda>_.
        checkErr ''creating index'' (create_resp W = TransportError)
          (emit (Log Info ''Index created''))))
      else ret ())"

text \<open>Lines 119 to 125.\<close>

definition loadData :: "'d json \<Rightarrow> world \<Rightarrow> config \<Rightarrow> 'd list prog" where
  "loadData J W c =
     (case files W (dataFile c) of
        None \<Rightarrow> checkErr ''reading data file'' True (ret [])
      | Some data \<Rightarrow>
          (case unmarshal J data of
             None \<Rightarrow> checkErr ''parsing data JSON'' True (ret [])
           | Some records \<Rightarrow> ret records))"

section \<open>The upload loop\<close>

text \<open>Addition of two Go \<^verbatim>\<open>int\<close> values wraps around at 64 bits.\<close>

definition wrap64 :: "int \<Rightarrow> int" where
  "wrap64 x = (x + 2 ^ 63) mod 2 ^ 64 - 2 ^ 63"

text \<open>\<^verbatim>\<open>records[i:end]\<close> for \<^verbatim>\<open>0 <= i <= end <= len(records)\<close>.\<close>

definition slice :: "'a list \<Rightarrow> int \<Rightarrow> int \<Rightarrow> 'a list" where
  "slice xs i e = take (nat (e - i)) (drop (nat i) xs)"

text \<open>Lines 137 to 147: the body of one bulk request.\<close>

definition bulk_body :: "'d json \<Rightarrow> string \<Rightarrow> 'd list \<Rightarrow> string" where
  "bulk_body J idx batch =
     concat (map (\<lambda>doc. marshal_meta J idx @ [CHR 0x0A] @ marshal_doc J doc @ [CHR 0x0A]) batch)"

text \<open>
  Lines 131 to 164. The loop variable \<^verbatim>\<open>i\<close>, the number \<^verbatim>\<open>k\<close> of bulk requests made so far
  and the trace so far are the arguments. The slice expression panics unless
  \<^verbatim>\<open>0 <= i <= end\<close> (\<^verbatim>\<open>end\<close> is at most the length after the clamp). A run of the loop that
  never ends has no result.
\<close>

partial_function (option) upload_loop ::
  "'d json \<Rightarrow> world \<Rightarrow> string \<Rightarrow> 'd list \<Rightarrow> int \<Rightarrow> int \<Rightarrow> nat \<Rightarrow> event list
     \<Rightarrow> (event list \<times> status) option" where
  "upload_loop J W idx records B i k tr =
     (if i < int (length records) then
        (let end0 = wrap64 (i + B);
             end1 = (if end0 > int (length records) then int (length records) else end0)
         in if \<not> (0 \<le> i \<and> i \<le> end1) then Some (tr, Panic)
            else
              (case bulk_resp W k of
                 TransportError \<Rightarrow>
                   Some (tr @ [Bulk (bulk_body J idx (slice records i end1)),
                               Log Fatal ''Error during bulk insert''], Exit 1)
               | Status _ \<Rightarrow>
                   upload_loop J W idx records B (wrap64 (i + B)) (Suc k)
                     (tr @ [Bulk (bulk_body J idx (slice records i end1)),
                            BatchInserted end1 (int (length records))])))
      else Some (tr @ [Log Info ''Bulk load completed''], Exit 0))"

section \<open>The program\<close>

definition prelude :: "world \<Rightarrow> config \<Rightarrow> bool prog" where
  "prelude W c =
     thn (validate c) (\<lambda>_.
     thn (newClient W (client_config c)) (\<lambda>_.
     thn (indexExists W (index c)) (\<lambda>(ex, err).
     checkErr ''checking if index exists'' err
       (lifecycle W c ex))))"

text \<open>Everything main does before the upload loop: the result is the parsed documents.\<close>

definition before_loop :: "'d json \<Rightarrow> world \<Rightarrow> config \<Rightarrow> 'd list prog" where
  "before_loop J W c =
     thn (prelude W c) (\<lambda>ex.
     thn (createIndex W c ex) (\<lambda>_.
     thn (loadData J W c) (\<lambda>records.
     thn (emit (Log Info ''Starting bulk insert'')) (\<lambda>_. ret records))))"

text \<open>A run of the whole program: its trace and how the process ends, or no result when the
  upload loop runs forever.\<close>

definition main :: "'d json \<Rightarrow> world \<Rightarrow> config \<Rightarrow> (event list \<times> status) option" where
  "main J W c =
     (case before_loop J W c of
        (t, Halt s) \<Rightarrow> Some (t, s)
      | (t, Value records) \<Rightarrow> upload_loop J W (index c) records (batchSize c) 0 0 t)"

section \<open>Notions used to state the properties\<close>

text \<open>The requests sent to the cluster, and the bodies of the bulk requests of a trace, in
  order.\<close>

fun is_request :: "event \<Rightarrow> bool" where
  "is_request (IndicesExists _) = True"
| "is_request (IndicesDelete _) = True"
| "is_request (IndicesCreate _ _) = True"
| "is_request (Bulk _) = True"
| "is_request _ = False"

text \<open>What is left of the program before the loop when the index exists and is kept: the
  data load.\<close>

definition load_only :: "'d json \<Rightarrow> world \<Rightarrow> config \<Rightarrow> 'd list prog" where
  "load_only J W c =
     thn (loadData J W c) (\<lambda>records.
     thn (emit (Log Info ''Starting bulk insert'')) (\<lambda>_. ret records))"






fun is_create :: "event \<Rightarrow> bool" where
  "is_create (IndicesCreate _ _) = True"
| "is_create _ = False"

fun bulk_of :: "event \<Rightarrow> string list" where
  "bulk_of (Bulk body) = [body]"
| "bulk_of _ = []"

definition bulk_requests :: "event list \<Rightarrow> string list" where
  "bulk_requests tr = concat (map bulk_of tr)"

text \<open>
  The batches of the specification, section 4.6 and the data model: the document sequence
  cut into contiguous slices of \<open>b\<close> documents, \<open>\<lceil>N / b\<rceil>\<close> of them, the \<open>j\<close>-th starting at
  document \<open>j * b\<close>.
\<close>

definition batches :: "nat \<Rightarrow> 'a list \<Rightarrow> 'a list list" where
  "batches b xs = map (\<lambda>j. take b (drop (j * b) xs)) [0..<(length xs + b - 1) div b]"

text \<open>What one successful iteration of the loop adds to the trace, for batch \<open>j\<close>.\<close>

definition batch_events :: "'d json \<Rightarrow> string \<Rightarrow> 'd list \<Rightarrow> nat \<Rightarrow> nat \<Rightarrow> event list" where
  "batch_events J idx docs b j =
     [Bulk (bulk_body J idx (take b (drop (j * b) docs))),
      BatchInserted (min (int (j * b + b)) (int (length docs))) (int (length docs))]"

text \<open>
  Whatever the batch size and the document count: when a run of the loop returns, the trace
  it was started with is a prefix of its trace, and a bulk request of the loop that met a
  transport error is the last bulk request of the run, which then ends with exit status 1.
  The \<open>m\<close>-th bulk request of a loop started with request counter \<open>k\<close> is answered by
  \<open>bulk_resp W (k + m)\<close>.
\<close>

definition failed_last :: "world \<Rightarrow> nat \<Rightarrow> event list \<Rightarrow> event list \<times> status \<Rightarrow> bool" where
  "failed_last W k tr y =
     (\<exists>ext. fst y = tr @ ext \<and>
        list_all (\<lambda>m. bulk_resp W (k + m) \<noteq> TransportError \<or>
                       (Suc m = length (bulk_requests ext) \<and> snd y = Exit 1))
          [0..<length (bulk_requests ext)])"

section \<open>A concrete run, for the closed examples\<close>

text \<open>
  A stand-in for \<^verbatim>\<open>encoding/json\<close> in which a document is its own compact JSON text and one
  data file is known; a cluster without the index that answers every request with success;
  and the flags of a plain run.
\<close>

definition demo_docs :: "string list" where
  \<open>demo_docs = [''{"id":1}'', ''{"id":2}'', ''{"id":3}'']\<close>

definition demo_json :: "string json" where
  \<open>demo_json =
     \<lparr>unmarshal = (\<lambda>s. if s = ''[{"id": 1}, {"id": 2}, {"id": 3}]''
                         then Some demo_docs else None),
      marshal_doc = (\<lambda>d. d),
      marshal_meta = (\<lambda>idx. ''{"index":{"_index":"'' @ idx @ ''"}}''),
      unmarshal_doc = (\<lambda>s. if s \<in> set demo_docs then Some s else None)\<rparr>\<close>

definition demo_world :: world where
  \<open>demo_world =
     \<lparr>files = [''data.json'' \<mapsto> ''[{"id": 1}, {"id": 2}, {"id": 3}]'',
               ''settings.json'' \<mapsto> ''{"number_of_shards": 1}'',
               ''broken.json'' \<mapsto> ''{"number_of_shards": ''],
      new_client = (\<lambda>_. True),
      exists_resp = Status 404,
      delete_resp = Status 200,
      create_resp = Status 200,
      bulk_resp = (\<lambda>_. Status 200)\<rparr>\<close>

definition demo_config :: config where
  "demo_config =
     \<lparr>url = ''http://localhost:9200'', insecure = False, index = ''my-index'',
      settingsFile = [], mappingsFile = [], dataFile = ''data.json'', batchSize = 2,
      deleteIndex = False, addToIndex = False, user = [], pass = [], apiKey = []\<rparr>"

section \<open>The upload loop, step by step\<close>

lemma wrap64_id: "- (2 ^ 63) \<le> x \<Longrightarrow> x < 2 ^ 63 \<Longrightarrow> wrap64 x = x"
  by (simp add: wrap64_def)

lemma slice_nat: "slice xs (int i) (int e) = take (e - i) (drop i xs)"
proof -
  have "nat (int e - int i) = e - i" by linarith
  then show ?thesis by (simp add: slice_def)
qed

lemma slice_batch:
  assumes "i < length docs"
  shows "slice docs (int i) (min (int (i + b)) (int (length docs))) = take b (drop i docs)"
proof -
  have m: "min (int (i + b)) (int (length docs)) = int (min (i + b) (length docs))"
    by (simp add: min_def)
  have "take (min (i + b) (length docs) - i) (drop i docs) = take b (drop i docs)"
  proof (cases "i + b \<le> length docs")
    case True
    then show ?thesis by (simp add: min_def)
  next
    case False
    then have "length (drop i docs) \<le> b" by simp
    moreover from False have "min (i + b) (length docs) - i = length (drop i docs)"
      by (simp add: min_def)
    ultimately show ?thesis by simp
  qed
  then show ?thesis unfolding m slice_nat .
qed

text \<open>One iteration, for a batch size in range and a document count below \<open>2\<^sup>6\<^sup>2\<close>: the
  addition does not wrap and the slice is the \<open>j\<close>-th batch.\<close>

lemma loop_unfold:
  assumes B: "0 < b" "int b < 2 ^ 63" and N: "length docs < 2 ^ 62"
    and j: "j * b < length docs"
  shows "upload_loop J W idx docs (int b) (int (j * b)) j tr =
         (case bulk_resp W j of
            TransportError \<Rightarrow>
              Some (tr @ [Bulk (bulk_body J idx (take b (drop (j * b) docs))),
                          Log Fatal ''Error during bulk insert''], Exit 1)
          | Status _ \<Rightarrow>
              upload_loop J W idx docs (int b) (int (Suc j * b)) (Suc j)
                (tr @ batch_events J idx docs b j))"
proof -
  define i where "i = j * b"
  have i: "i < length docs" using j by (simp add: i_def)
  have Si: "Suc j * b = i + b" by (simp add: i_def)
  have le: "b \<le> i \<or> i = 0" using B unfolding i_def by (cases j) auto
  have "i + b < 2 ^ 63"
  proof (cases "i = 0")
    case True
    have "int b < int (2 ^ 63)" using B(2) by simp
    then have "b < 2 ^ 63" by (rule iffD1[OF of_nat_less_iff])
    with True show ?thesis by simp
  next
    case False
    with le have "b \<le> i" by simp
    with i have "i + b < 2 * length docs" by linarith
    also have "\<dots> < 2 * 2 ^ 62" using N by simp
    finally show ?thesis by simp
  qed
  then have "int (i + b) < int (2 ^ 63)" by (rule iffD2[OF of_nat_less_iff])
  then have bound: "int (i + b) < 2 ^ 63" by simp
  have "- (2 ^ 63) \<le> int (i + b)" by (rule order_trans[of _ 0]) simp_all
  then have w0: "wrap64 (int (i + b)) = int (i + b)" using bound by (rule wrap64_id)
  have w: "wrap64 (int i + int b) = int (i + b)" using w0 by simp
  have e1: "(if int (i + b) > int (length docs) then int (length docs) else int (i + b))
            = min (int (i + b)) (int (length docs))" by (simp add: min_def)
  have chk: "0 \<le> int i \<and> int i \<le> min (int (i + b)) (int (length docs))"
    using i by (simp add: min_def)
  have lt: "int i < int (length docs)" using i by simp
  have "upload_loop J W idx docs (int b) (int i) j tr =
         (case bulk_resp W j of
            TransportError \<Rightarrow>
              Some (tr @ [Bulk (bulk_body J idx (take b (drop i docs))),
                          Log Fatal ''Error during bulk insert''], Exit 1)
          | Status _ \<Rightarrow>
              upload_loop J W idx docs (int b) (int (i + b)) (Suc j)
                (tr @ batch_events J idx docs b j))"
    apply (subst upload_loop.simps)
    apply (simp only: w Let_def e1 lt if_True chk not_True_eq_False if_False)
    apply (simp only: slice_batch[OF i] batch_events_def i_def[symmetric] simp_thms if_False)
    done
  then show ?thesis unfolding Si i_def .
qed

lemma loop_steps:
  assumes B: "0 < b" "int b < 2 ^ 63" and N: "length docs < 2 ^ 62"
    and s: "s = 0 \<or> (s - 1) * b < length docs"
    and ok: "\<forall>m<s. bulk_resp W m \<noteq> TransportError"
  shows "upload_loop J W idx docs (int b) 0 0 tr =
         upload_loop J W idx docs (int b) (int (s * b)) s
           (tr @ concat (map (batch_events J idx docs b) [0..<s]))"
  using s ok
proof (induction s)
  case 0
  then show ?case by simp
next
  case (Suc s)
  from Suc.prems(1) have sb: "s * b < length docs" by simp
  have "s = 0 \<or> (s - 1) * b < length docs"
  proof (cases s)
    case 0 then show ?thesis by simp
  next
    case (Suc s')
    have "s' * b \<le> s * b" unfolding Suc by simp
    with sb show ?thesis unfolding Suc by simp
  qed
  moreover have "\<forall>m<s. bulk_resp W m \<noteq> TransportError" using Suc.prems(2) by simp
  ultimately have IH: "upload_loop J W idx docs (int b) 0 0 tr =
         upload_loop J W idx docs (int b) (int (s * b)) s
           (tr @ concat (map (batch_events J idx docs b) [0..<s]))" by (rule Suc.IH)
  from Suc.prems(2) obtain st where st: "bulk_resp W s = Status st"
    by (cases "bulk_resp W s") auto
  show ?case unfolding IH loop_unfold[OF B N sb] st by simp
qed

lemma loop_exit:
  assumes "length docs \<le> i"
  shows "upload_loop J W idx docs B (int i) k tr = Some (tr @ [Log Info ''Bulk load completed''], Exit 0)"
  using assms by (subst upload_loop.simps) simp

subsection \<open>Arithmetic of the number of batches\<close>

lemma less_nbatches_iff:
  fixes j n b :: nat
  assumes "0 < b"
  shows "j < (n + b - 1) div b \<longleftrightarrow> j * b < n"
proof -
  have "j < (n + b - 1) div b \<longleftrightarrow> Suc j \<le> (n + b - 1) div b" by auto
  also have "\<dots> \<longleftrightarrow> Suc j * b \<le> n + b - 1" using assms by (simp add: less_eq_div_iff_mult_less_eq)
  also have "\<dots> \<longleftrightarrow> j * b < n" using assms by auto
  finally show ?thesis .
qed

lemma nbatches_covers:
  fixes n b :: nat
  assumes "0 < b"
  shows "n \<le> ((n + b - 1) div b) * b"
proof (rule ccontr)
  assume "\<not> n \<le> ((n + b - 1) div b) * b"
  then have "((n + b - 1) div b) * b < n" by simp
  then have "(n + b - 1) div b < (n + b - 1) div b" using less_nbatches_iff[OF assms] by blast
  then show False by simp
qed

lemma nbatches_ceiling:
  fixes n b :: nat
  assumes "0 < b"
  shows "(n + b - 1) div b = nat \<lceil>real n / real b\<rceil>"
proof -
  define k where "k = (n + b - 1) div b"
  have rb: "0 < real b" using assms by simp
  have up: "n \<le> k * b" unfolding k_def by (rule nbatches_covers[OF assms])
  then have "real n \<le> real (k * b)" by (rule iffD2[OF of_nat_le_iff])
  then have "real n \<le> real k * real b" by simp
  then have le: "real n / real b \<le> real k" using rb by (simp add: pos_divide_le_eq)
  have gt: "real k - 1 < real n / real b"
  proof (cases k)
    case 0
    have "0 \<le> real n / real b" by simp
    then have "- 1 < real n / real b" by linarith
    then show ?thesis unfolding 0 by simp
  next
    case (Suc k')
    have "k' < (n + b - 1) div b" using Suc unfolding k_def by simp
    then have "k' * b < n" using less_nbatches_iff[OF assms] by blast
    then have "real (k' * b) < real n" by (rule iffD2[OF of_nat_less_iff])
    then have "real k' * real b < real n" by simp
    then have "real k' < real n / real b" using rb by (simp add: pos_less_divide_eq)
    then show ?thesis unfolding Suc by simp
  qed
  have "\<lceil>real n / real b\<rceil> = int k"
    by (rule ceiling_unique) (use le gt in simp_all)
  then show ?thesis unfolding k_def by simp
qed

section \<open>Batches\<close>

lemma length_batches: "length (batches b xs) = (length xs + b - 1) div b"
  by (simp add: batches_def)

lemma nth_batches:
  "j < length (batches b xs) \<Longrightarrow> batches b xs ! j = take b (drop (j * b) xs)"
  by (simp add: batches_def)

lemma concat_slices: "concat (map (\<lambda>j. take b (drop (j * b) xs)) [0..<n]) = take (n * b) xs"
proof (induction n)
  case 0
  then show ?case by simp
next
  case (Suc n)
  have "Suc n * b = n * b + b" by simp
  then have "take (Suc n * b) xs = take (n * b) xs @ take b (drop (n * b) xs)"
    by (simp only: take_add)
  with Suc show ?case by simp
qed

lemma concat_batches:
  assumes "0 < b"
  shows "concat (batches b xs) = xs"
proof -
  have "length xs \<le> ((length xs + b - 1) div b) * b" by (rule nbatches_covers[OF assms])
  then show ?thesis by (simp add: batches_def concat_slices)
qed

lemma batch_index:
  assumes "0 < b"
  shows "j < length (batches b xs) \<longleftrightarrow> j * b < length xs"
  unfolding length_batches by (rule less_nbatches_iff[OF assms])

lemma length_batch:
  assumes "0 < b" and "j < length (batches b xs)"
  shows "length (batches b xs ! j) = min b (length xs - j * b)"
    and "0 < length (batches b xs ! j)"
proof -
  from assms have "j * b < length xs" by (simp only: batch_index)
  then show "length (batches b xs ! j) = min b (length xs - j * b)"
    and "0 < length (batches b xs ! j)"
    using assms by (simp_all add: nth_batches)
qed

lemma full_batch:
  assumes "0 < b" and "Suc j < length (batches b xs)"
  shows "length (batches b xs ! j) = b"
proof -
  from assms have "Suc j * b < length xs" by (simp only: batch_index)
  then have "b \<le> length xs - j * b" by simp
  moreover have "j < length (batches b xs)" using assms by simp
  ultimately show ?thesis using assms(1) by (simp add: length_batch(1))
qed

section \<open>Bulk requests of a trace\<close>

lemma bulk_requests_append: "bulk_requests (t @ u) = bulk_requests t @ bulk_requests u"
  by (simp add: bulk_requests_def)

lemma bulk_requests_batch_events:
  "bulk_requests (batch_events J idx docs b j) = [bulk_body J idx (take b (drop (j * b) docs))]"
  by (simp add: bulk_requests_def batch_events_def)

lemma bulk_requests_steps:
  "bulk_requests (concat (map (batch_events J idx docs b) [0..<s])) =
   map (\<lambda>j. bulk_body J idx (take b (drop (j * b) docs))) [0..<s]"
  by (induction s) (simp_all add: bulk_requests_append bulk_requests_batch_events, simp add: bulk_requests_def)

lemma take_batches:
  assumes "s \<le> length (batches b docs)"
  shows "map (\<lambda>j. bulk_body J idx (take b (drop (j * b) docs))) [0..<s] =
         map (bulk_body J idx) (take s (batches b docs))"
proof -
  define g where "g = (\<lambda>j. take b (drop (j * b) docs))"
  define nb where "nb = (length docs + b - 1) div b"
  have "s \<le> nb" using assms unfolding length_batches nb_def .
  then have "take s [0..<nb] = [0..<s]" by simp
  then have "take s (map g [0..<nb]) = map g [0..<s]" by (simp only: take_map)
  then have "take s (batches b docs) = map g [0..<s]"
    unfolding batches_def g_def nb_def .
  then show ?thesis unfolding g_def by (simp add: o_def)
qed

section \<open>Complete and failing runs of the loop\<close>

lemma loop_complete:
  assumes B: "0 < b" "int b < 2 ^ 63" and N: "length docs < 2 ^ 62"
    and ok: "\<forall>m<length (batches b docs). bulk_resp W m \<noteq> TransportError"
  shows "upload_loop J W idx docs (int b) 0 0 tr =
         Some (tr @ concat (map (batch_events J idx docs b) [0..<length (batches b docs)])
                  @ [Log Info ''Bulk load completed''], Exit 0)"
proof -
  define s where "s = length (batches b docs)"
  have s: "s = 0 \<or> (s - 1) * b < length docs"
  proof (cases s)
    case 0 then show ?thesis by simp
  next
    case (Suc s')
    then have "s' < length (batches b docs)" by (simp add: s_def)
    then have "s' * b < length docs" by (simp only: batch_index[OF B(1)])
    then show ?thesis using Suc by simp
  qed
  have fin: "length docs \<le> s * b"
    unfolding s_def length_batches by (rule nbatches_covers[OF B(1)])
  have ok': "\<forall>m<s. bulk_resp W m \<noteq> TransportError" using ok by (simp add: s_def)
  show ?thesis
    unfolding s_def[symmetric] loop_steps[OF B N s ok', of J idx tr] loop_exit[OF fin]
    by simp
qed

lemma loop_fails:
  assumes B: "0 < b" "int b < 2 ^ 63" and N: "length docs < 2 ^ 62"
    and f: "f < length (batches b docs)"
    and ok: "\<forall>m<f. bulk_resp W m \<noteq> TransportError"
    and err: "bulk_resp W f = TransportError"
  shows "upload_loop J W idx docs (int b) 0 0 tr =
         Some (tr @ concat (map (batch_events J idx docs b) [0..<f])
                  @ [Bulk (bulk_body J idx (take b (drop (f * b) docs))),
                     Log Fatal ''Error during bulk insert''], Exit 1)"
proof -
  have fb: "f * b < length docs" using f by (simp only: batch_index[OF B(1)])
  have s: "f = 0 \<or> (f - 1) * b < length docs"
  proof (cases f)
    case 0 then show ?thesis by simp
  next
    case (Suc f')
    have "f' * b \<le> f * b" unfolding Suc by simp
    with fb show ?thesis unfolding Suc by simp
  qed
  show ?thesis
    unfolding loop_steps[OF B N s ok, of J idx tr] loop_unfold[OF B N fb] err
    by simp
qed

section \<open>Batch sizes that are not positive\<close>

lemma wrap64_0: "wrap64 0 = 0"
  by (simp add: wrap64_def)

lemma loop_zero_diverges_aux:
  assumes "upload_loop J W idx docs B i k tr = Some y"
  shows "\<not> (B = 0 \<and> i = 0 \<and> docs \<noteq> [] \<and> (\<forall>m. bulk_resp W m \<noteq> TransportError))"
proof (rule upload_loop.raw_induct[where P = "\<lambda>J W idx docs B i k tr y.
         \<not> (B = 0 \<and> i = 0 \<and> docs \<noteq> [] \<and> (\<forall>m. bulk_resp W m \<noteq> TransportError))", OF _ assms])
  fix f :: "'a json \<Rightarrow> world \<Rightarrow> string \<Rightarrow> 'a list \<Rightarrow> int \<Rightarrow> int \<Rightarrow> nat \<Rightarrow> event list
              \<Rightarrow> (event list \<times> status) option"
    and J W idx docs B i k tr y
  assume IH: "\<And>J W idx docs B i k tr y. f J W idx docs B i k tr = Some y \<Longrightarrow>
      \<not> (B = 0 \<and> i = 0 \<and> docs \<noteq> [] \<and> (\<forall>m. bulk_resp W m \<noteq> TransportError))"
  assume body: "(if i < int (length docs) then
        (let end0 = wrap64 (i + B);
             end1 = (if end0 > int (length docs) then int (length docs) else end0)
         in if \<not> (0 \<le> i \<and> i \<le> end1) then Some (tr, Panic)
            else
              (case bulk_resp W k of
                 TransportError \<Rightarrow>
                   Some (tr @ [Bulk (bulk_body J idx (slice docs i end1)),
                               Log Fatal ''Error during bulk insert''], Exit 1)
               | Status _ \<Rightarrow>
                   f J W idx docs B (wrap64 (i + B)) (Suc k)
                     (tr @ [Bulk (bulk_body J idx (slice docs i end1)),
                            BatchInserted end1 (int (length docs))])))
      else Some (tr @ [Log Info ''Bulk load completed''], Exit 0)) = Some y"
  show "\<not> (B = 0 \<and> i = 0 \<and> docs \<noteq> [] \<and> (\<forall>m. bulk_resp W m \<noteq> TransportError))"
  proof
    assume a: "B = 0 \<and> i = 0 \<and> docs \<noteq> [] \<and> (\<forall>m. bulk_resp W m \<noteq> TransportError)"
    then obtain st where st: "bulk_resp W k = Status st" by (cases "bulk_resp W k") auto
    from a have "0 < int (length docs)" by simp
    with body a st have "f J W idx docs 0 0 (Suc k)
       (tr @ [Bulk (bulk_body J idx (slice docs 0 0)), BatchInserted 0 (int (length docs))]) = Some y"
      by (simp add: wrap64_0)
    from IH[OF this] a show False by simp
  qed
qed

lemma loop_zero_diverges:
  assumes "docs \<noteq> []" and "\<forall>m. bulk_resp W m \<noteq> TransportError"
  shows "upload_loop J W idx docs 0 0 k tr = None"
proof (cases "upload_loop J W idx docs 0 0 k tr")
  case None
  then show ?thesis .
next
  case (Some y)
  from loop_zero_diverges_aux[OF Some] assms show ?thesis by simp
qed

lemma loop_negative_panics:
  assumes "docs \<noteq> []" and "- (2 ^ 63) \<le> B" and "B < 0"
  shows "upload_loop J W idx docs B 0 k tr = Some (tr, Panic)"
proof -
  have "wrap64 B = B" using assms(2,3) by (intro wrap64_id) simp_all
  then show ?thesis using assms by (subst upload_loop.simps) simp
qed

section \<open>The program before the loop\<close>

lemmas prog_defs = ret_def emit_def thn_def fatal_def checkErr_def

lemma main_validate_halts:
  assumes "validate c = (t, Halt s)"
  shows "main J W c = Some (t, s)"
  using assms by (simp add: main_def before_loop_def prelude_def thn_def)

lemma main_reaches_loop:
  assumes "before_loop J W c = (t, Value docs)"
  shows "main J W c = upload_loop J W (index c) docs (batchSize c) 0 0 t"
  using assms by (simp add: main_def)

text \<open>The batch size is not looked at before the loop.\<close>

lemma validate_batchSize: "validate (c\<lparr>batchSize := B\<rparr>) = validate c"
  by (simp add: validate_def)

lemma client_config_batchSize: "client_config (c\<lparr>batchSize := B\<rparr>) = client_config c"
  by (simp add: client_config_def cong: if_cong)

lemma lifecycle_batchSize: "lifecycle W (c\<lparr>batchSize := B\<rparr>) ex = lifecycle W c ex"
  by (simp add: lifecycle_def cong: if_cong)

lemma createIndex_batchSize: "createIndex W (c\<lparr>batchSize := B\<rparr>) ex = createIndex W c ex"
  by (simp add: createIndex_def cong: if_cong)

lemma loadData_batchSize: "loadData J W (c\<lparr>batchSize := B\<rparr>) = loadData J W c"
  by (simp add: loadData_def)

lemma prelude_batchSize: "prelude W (c\<lparr>batchSize := B\<rparr>) = prelude W c"
  by (simp add: prelude_def validate_batchSize client_config_batchSize lifecycle_batchSize)

lemma before_loop_batchSize: "before_loop J W (c\<lparr>batchSize := B\<rparr>) = before_loop J W c"
  by (simp add: before_loop_def prelude_batchSize createIndex_batchSize loadData_batchSize)

lemma demo_before_loop:
  \<open>before_loop demo_json demo_world demo_config =
     ([NewClient \<lparr>Addresses = [''http://localhost:9200''], InsecureSkipVerify = False,
                  Username = [], Password = [], APIKey = []\<rparr>,
       IndicesExists ''my-index'',
       Log Info ''Creating index before loading data'',
       IndicesCreate ''my-index'' ''{"settings": {}, "mappings": {}}'',
       Log Info ''Index created'',
       Log Info ''Starting bulk insert''], Value demo_docs)\<close>
  by (simp add: before_loop_def prelude_def validate_def client_config_def newClient_def
      indexExists_def lifecycle_def createIndex_def buildCreateIndexBody_def loadData_def
      prog_defs demo_json_def demo_world_def demo_config_def)

section \<open>Validation of the flags\<close>

text \<open>
  Claim C5. Whenever a user name, a password and an API key are all supplied, the program
  logs that the two methods cannot be combined, prints the usage text and exits with status 1;
  this is the whole run, so no request is made before or after.
\<close>

theorem auth_conflict_rejected:
  assumes "user c \<noteq> []" and "pass c \<noteq> []" and "apiKey c \<noteq> []"
  shows "main J W c =
         Some ([Log Info ''Cannot use both basic auth and API key. Choose one method.'', Usage],
               Exit 1)"
  by (rule main_validate_halts) (simp add: validate_def assms)

theorem auth_conflict_rejected_witness:
  "user (demo_config\<lparr>user := ''elastic'', pass := ''secret'', apiKey := ''key''\<rparr>) = ''elastic'' \<and>
   main demo_json demo_world (demo_config\<lparr>user := ''elastic'', pass := ''secret'', apiKey := ''key''\<rparr>) =
     Some ([Log Info ''Cannot use both basic auth and API key. Choose one method.'', Usage],
           Exit 1)"
  using auth_conflict_rejected[of "demo_config\<lparr>user := ''elastic'', pass := ''secret'', apiKey := ''key''\<rparr>"
      demo_json demo_world]
  by simp

text \<open>
  Claim C6. Whenever the index name or the path of the data file is empty, the run ends with
  exit status 1, its trace holds the usage text and holds no request to the cluster.
\<close>

theorem missing_required_flag:
  assumes "index c = [] \<or> dataFile c = []"
  shows "\<exists>tr. main J W c = Some (tr, Exit 1) \<and> Usage \<in> set tr \<and> \<not> list_ex is_request tr"
proof (cases "(user c \<noteq> [] \<or> pass c \<noteq> []) \<and> apiKey c \<noteq> []")
  case True
  then have "validate c =
      ([Log Info ''Cannot use both basic auth and API key. Choose one method.'', Usage],
       Halt (Exit 1))"
    by (simp add: validate_def)
  then have "main J W c =
      Some ([Log Info ''Cannot use both basic auth and API key. Choose one method.'', Usage],
            Exit 1)"
    by (rule main_validate_halts)
  then show ?thesis by simp
next
  case False
  with assms have "validate c = ([Usage], Halt (Exit 1))"
    by (simp add: validate_def)
  then have "main J W c = Some ([Usage], Exit 1)" by (rule main_validate_halts)
  then show ?thesis by simp
qed

theorem missing_required_flag_witness:
  "index (demo_config\<lparr>index := []\<rparr>) = [] \<and>
   main demo_json demo_world (demo_config\<lparr>index := []\<rparr>) = Some ([Usage], Exit 1)"
proof -
  have "validate (demo_config\<lparr>index := []\<rparr>) = ([Usage], Halt (Exit 1))"
    by (simp add: validate_def demo_config_def)
  then have m: "main demo_json demo_world (demo_config\<lparr>index := []\<rparr>) = Some ([Usage], Exit 1)"
    by (rule main_validate_halts)
  from missing_required_flag[of "demo_config\<lparr>index := []\<rparr>" demo_json demo_world]
  have "\<exists>tr. main demo_json demo_world (demo_config\<lparr>index := []\<rparr>) = Some (tr, Exit 1)"
    by auto
  with m show ?thesis by simp
qed

section \<open>Authentication\<close>

lemma before_loop_starts_with_client:
  assumes "validate c = ([], Value ())"
  shows "\<exists>rest r. before_loop J W c = (NewClient (client_config c) # rest, r)"
proof -
  obtain t r where nc: "newClient W (client_config c) = (NewClient (client_config c) # t, r)"
    by (cases "new_client W (client_config c)") (simp_all add: newClient_def prog_defs)
  show ?thesis
    unfolding before_loop_def prelude_def assms
    by (cases r) (simp_all add: thn_def nc split: prod.splits result.splits)
qed

text \<open>
  Claim C9. With an empty API key and exactly one of user name and password given, the check
  for conflicting methods does not fire: for a configuration that also has the required index
  and data flags the validation prints nothing and continues, and the first thing the program
  does is to construct the client from a configuration with no user name, no password and no
  API key. For every configuration \<open>c'\<close>, the client gets a user name or a password only when
  both flags are non-empty. A non-empty API key together with a user name or a password ends
  the run with the conflict message, the usage text and exit status 1.
\<close>

theorem partial_basic_auth:
  assumes "apiKey c = []" and "(user c = []) \<noteq> (pass c = [])"
  shows "(index c \<noteq> [] \<and> dataFile c \<noteq> [] \<longrightarrow>
            validate c = ([], Value ()) \<and>
            (\<exists>rest r. before_loop J W c =
               (NewClient \<lparr>Addresses = [url c], InsecureSkipVerify = insecure c,
                           Username = [], Password = [], APIKey = []\<rparr> # rest, r))) \<and>
         Username (client_config c) = [] \<and> Password (client_config c) = [] \<and>
         APIKey (client_config c) = [] \<and>
         (Username (client_config c') \<noteq> [] \<or> Password (client_config c') \<noteq> [] \<longrightarrow>
            user c' \<noteq> [] \<and> pass c' \<noteq> [] \<and>
            Username (client_config c') = user c' \<and> Password (client_config c') = pass c') \<and>
         (apiKey c' \<noteq> [] \<and> (user c' \<noteq> [] \<or> pass c' \<noteq> []) \<longrightarrow>
            main J W c' =
              Some ([Log Info ''Cannot use both basic auth and API key. Choose one method.'',
                     Usage], Exit 1))"
proof -
  have cc: "client_config c = \<lparr>Addresses = [url c], InsecureSkipVerify = insecure c,
                           Username = [], Password = [], APIKey = []\<rparr>"
    using assms by (auto simp: client_config_def)
  have v: "validate c = ([], Value ())" if "index c \<noteq> []" "dataFile c \<noteq> []"
    using assms that by (simp add: validate_def ret_def)
  have a: "index c \<noteq> [] \<and> dataFile c \<noteq> [] \<longrightarrow>
            validate c = ([], Value ()) \<and>
            (\<exists>rest r. before_loop J W c =
               (NewClient \<lparr>Addresses = [url c], InsecureSkipVerify = insecure c,
                           Username = [], Password = [], APIKey = []\<rparr> # rest, r))"
    using v before_loop_starts_with_client[of c J W] unfolding cc by blast
  have b: "Username (client_config c') \<noteq> [] \<or> Password (client_config c') \<noteq> [] \<longrightarrow>
            user c' \<noteq> [] \<and> pass c' \<noteq> [] \<and>
            Username (client_config c') = user c' \<and> Password (client_config c') = pass c'"
    by (auto simp: client_config_def Let_def)
  have d: "apiKey c' \<noteq> [] \<and> (user c' \<noteq> [] \<or> pass c' \<noteq> []) \<longrightarrow>
            main J W c' =
              Some ([Log Info ''Cannot use both basic auth and API key. Choose one method.'',
                     Usage], Exit 1)"
  proof
    assume "apiKey c' \<noteq> [] \<and> (user c' \<noteq> [] \<or> pass c' \<noteq> [])"
    then have "validate c' =
      ([Log Info ''Cannot use both basic auth and API key. Choose one method.'', Usage],
       Halt (Exit 1))" by (simp add: validate_def)
    then show "main J W c' =
              Some ([Log Info ''Cannot use both basic auth and API key. Choose one method.'',
                     Usage], Exit 1)" by (rule main_validate_halts)
  qed
  have u: "Username (client_config c) = []" "Password (client_config c) = []"
    "APIKey (client_config c) = []" by (simp_all add: cc)
  from a u b d show ?thesis by blast
qed

theorem partial_basic_auth_witness:
  "apiKey (demo_config\<lparr>user := ''elastic''\<rparr>) = [] \<and>
   user (demo_config\<lparr>user := ''elastic''\<rparr>) = ''elastic'' \<and>
   pass (demo_config\<lparr>user := ''elastic''\<rparr>) = [] \<and>
   validate (demo_config\<lparr>user := ''elastic''\<rparr>) = ([], Value ()) \<and>
   client_config (demo_config\<lparr>user := ''elastic''\<rparr>) =
     \<lparr>Addresses = [''http://localhost:9200''], InsecureSkipVerify = False,
      Username = [], Password = [], APIKey = []\<rparr> \<and>
   main demo_json demo_world (demo_config\<lparr>user := ''elastic'', apiKey := ''key''\<rparr>) =
     Some ([Log Info ''Cannot use both basic auth and API key. Choose one method.'', Usage],
           Exit 1)"
  using partial_basic_auth[where c = "demo_config\<lparr>user := ''elastic''\<rparr>"
      and c' = "demo_config\<lparr>user := ''elastic'', apiKey := ''key''\<rparr>"
      and J = demo_json and W = demo_world]
  by (simp add: demo_config_def client_config_def)

section \<open>The body of the create request\<close>

text \<open>
  Claim C3. Without a settings file and without a mappings file the body is the text
  \<^verbatim>\<open>{"settings": {}, "mappings": {}}\<close>. In general the body is
  \<^verbatim>\<open>{"settings": S, "mappings": M}\<close> where \<open>S\<close> is the text \<^verbatim>\<open>{}\<close> when no settings file is named
  and the unchanged contents of the file otherwise, and likewise for \<open>M\<close>; this body is what
  the create request carries.
\<close>

theorem create_index_body:
  assumes "sf = [] \<or> files W sf = Some S" and "mf = [] \<or> files W mf = Some M"
  shows \<open>buildCreateIndexBody W [] [] = ([], Value ''{"settings": {}, "mappings": {}}'') \<and>
         buildCreateIndexBody W sf mf =
           ([], Value (''{"settings": '' @ (if sf = [] then ''{}'' else S) @
                       '', "mappings": '' @ (if mf = [] then ''{}'' else M) @ ''}'')) \<and>
         (settingsFile c = sf \<and> mappingsFile c = mf \<longrightarrow>
            (\<exists>rest r. createIndex W c False =
               (IndicesCreate (index c)
                  (''{"settings": '' @ (if sf = [] then ''{}'' else S) @
                   '', "mappings": '' @ (if mf = [] then ''{}'' else M) @ ''}'') # rest, r)))\<close>
proof -
  have e: \<open>buildCreateIndexBody W [] [] = ([], Value ''{"settings": {}, "mappings": {}}'')\<close>
    by (simp add: buildCreateIndexBody_def prog_defs)
  have b: \<open>buildCreateIndexBody W sf mf =
           ([], Value (''{"settings": '' @ (if sf = [] then ''{}'' else S) @
                       '', "mappings": '' @ (if mf = [] then ''{}'' else M) @ ''}''))\<close>
    using assms by (auto simp: buildCreateIndexBody_def prog_defs)
  have \<open>\<exists>rest r. createIndex W c False =
               (IndicesCreate (index c)
                  (''{"settings": '' @ (if sf = [] then ''{}'' else S) @
                   '', "mappings": '' @ (if mf = [] then ''{}'' else M) @ ''}'') # rest, r)\<close>
    if "settingsFile c = sf" "mappingsFile c = mf"
  proof -
    have "createIndex W c False =
       thn (buildCreateIndexBody W sf mf) (\<lambda>body.
        thn (emit (IndicesCreate (index c) body)) (\<lambda>_.
        checkErr ''creating index'' (create_resp W = TransportError)
          (emit (Log Info ''Index created''))))"
      by (simp add: createIndex_def that)
    then show ?thesis unfolding b by (simp add: prog_defs)
  qed
  with e b show ?thesis by blast
qed

theorem create_index_body_witness:
  \<open>files demo_world ''settings.json'' = Some ''{"number_of_shards": 1}'' \<and>
   buildCreateIndexBody demo_world ''settings.json'' [] =
     ([], Value ''{"settings": {"number_of_shards": 1}, "mappings": {}}'')\<close>
  using create_index_body[where sf = "''settings.json''" and W = demo_world
      and S = \<open>''{"number_of_shards": 1}''\<close> and mf = "[]"]
  by (simp add: demo_world_def)

section \<open>Batch upload\<close>

lemma bulk_requests_complete:
  "bulk_requests (concat (map (batch_events J idx docs b) [0..<length (batches b docs)])
                  @ [Log Info ''Bulk load completed'']) =
   map (bulk_body J idx) (batches b docs)"
proof -
  have "map (\<lambda>j. bulk_body J idx (take b (drop (j * b) docs))) [0..<length (batches b docs)] =
        map (bulk_body J idx) (take (length (batches b docs)) (batches b docs))"
    by (rule take_batches) simp
  then show ?thesis
    by (simp add: bulk_requests_append bulk_requests_steps) (simp add: bulk_requests_def)
qed

lemma bulk_requests_failed:
  assumes "f < length (batches b docs)"
  shows "bulk_requests (concat (map (batch_events J idx docs b) [0..<f])
                  @ [Bulk (bulk_body J idx (take b (drop (f * b) docs))),
                     Log Fatal ''Error during bulk insert'']) =
         map (bulk_body J idx) (take (Suc f) (batches b docs))"
proof -
  have "map (\<lambda>j. bulk_body J idx (take b (drop (j * b) docs))) [0..<Suc f] =
        map (bulk_body J idx) (take (Suc f) (batches b docs))"
    by (rule take_batches) (use assms in simp)
  moreover have "bulk_requests [Bulk (bulk_body J idx (take b (drop (f * b) docs))),
                     Log Fatal ''Error during bulk insert''] =
        [bulk_body J idx (take b (drop (f * b) docs))]"
    by (simp add: bulk_requests_def)
  ultimately show ?thesis
    by (simp add: bulk_requests_append bulk_requests_steps)
qed

text \<open>No bulk request is made before the loop.\<close>

lemma bulk_requests_thn:
  "bulk_requests (fst (thn m k)) =
     (case m of (t, Halt s) \<Rightarrow> bulk_requests t
      | (t, Value a) \<Rightarrow> bulk_requests t @ bulk_requests (fst (k a)))"
  by (simp add: thn_def bulk_requests_append split: prod.splits result.splits)

lemma no_bulk_simps:
  "bulk_requests (fst (ret a)) = []"
  "bulk_requests (fst (fatal msg)) = []"
  "bulk_requests (fst (emit (Log l msg))) = []"
  "bulk_requests (fst (emit (NewClient cfg))) = []"
  "bulk_requests (fst (emit (IndicesExists idx))) = []"
  "bulk_requests (fst (emit (IndicesDelete idx))) = []"
  "bulk_requests (fst (emit (IndicesCreate idx body))) = []"
  by (simp_all add: ret_def fatal_def emit_def bulk_requests_def)

lemma no_bulk_checkErr:
  "bulk_requests (fst k) = [] \<Longrightarrow> bulk_requests (fst (checkErr ctx err k)) = []"
  by (simp add: checkErr_def no_bulk_simps)

lemma no_bulk_thn:
  assumes "bulk_requests (fst m) = []" and "\<And>a. bulk_requests (fst (k a)) = []"
  shows "bulk_requests (fst (thn m k)) = []"
proof (cases m)
  case (Pair t r)
  with assms(1) have t: "bulk_requests t = []" by simp
  show ?thesis
  proof (cases r)
    case (Halt s)
    with Pair t show ?thesis by (simp add: bulk_requests_thn)
  next
    case (Value a)
    with Pair t assms(2)[of a] show ?thesis by (simp add: bulk_requests_thn)
  qed
qed

lemma no_bulk_validate: "bulk_requests (fst (validate c)) = []"
  by (simp add: validate_def no_bulk_simps) (simp add: bulk_requests_def)

lemma no_bulk_newClient: "bulk_requests (fst (newClient W cfg)) = []"
  unfolding newClient_def by (intro no_bulk_thn no_bulk_checkErr no_bulk_simps)

lemma no_bulk_indexExists: "bulk_requests (fst (indexExists W idx)) = []"
  unfolding indexExists_def
  by (intro no_bulk_thn no_bulk_simps) (simp add: no_bulk_simps split: response.splits)

lemma no_bulk_deleteAndCheck: "bulk_requests (fst (deleteAndCheck W idx)) = []"
  unfolding deleteAndCheck_def
  by (intro no_bulk_thn no_bulk_checkErr no_bulk_simps) (simp add: no_bulk_simps)

lemma no_bulk_lifecycle: "bulk_requests (fst (lifecycle W c ex)) = []"
  unfolding lifecycle_def
  by (auto intro!: no_bulk_thn no_bulk_deleteAndCheck no_bulk_simps)

lemma no_bulk_buildCreateIndexBody: "bulk_requests (fst (buildCreateIndexBody W sf mf)) = []"
  unfolding buildCreateIndexBody_def
  by (auto intro!: no_bulk_thn no_bulk_simps split: option.splits)

lemma no_bulk_createIndex: "bulk_requests (fst (createIndex W c ex)) = []"
  unfolding createIndex_def
  by (auto intro!: no_bulk_thn no_bulk_checkErr no_bulk_buildCreateIndexBody no_bulk_simps)

lemma no_bulk_loadData: "bulk_requests (fst (loadData J W c)) = []"
  unfolding loadData_def
  by (auto intro!: no_bulk_checkErr no_bulk_simps split: option.splits)

lemma no_bulk_prelude: "bulk_requests (fst (prelude W c)) = []"
  unfolding prelude_def
  by (intro no_bulk_thn no_bulk_validate no_bulk_newClient no_bulk_indexExists)
     (auto intro!: no_bulk_checkErr no_bulk_lifecycle)

lemma no_bulk_before_loop: "bulk_requests (fst (before_loop J W c)) = []"
  unfolding before_loop_def
  by (intro no_bulk_thn no_bulk_prelude no_bulk_createIndex no_bulk_loadData no_bulk_simps)

text \<open>The answers to bulk requests are not looked at before the loop.\<close>

lemma deleteAndCheck_bulk_resp:
  "deleteAndCheck (W\<lparr>bulk_resp := r\<rparr>) idx = deleteAndCheck W idx"
  by (simp add: deleteAndCheck_def)

lemma lifecycle_bulk_resp: "lifecycle (W\<lparr>bulk_resp := r\<rparr>) c ex = lifecycle W c ex"
  by (simp add: lifecycle_def deleteAndCheck_bulk_resp cong: if_cong)

lemma prelude_bulk_resp: "prelude (W\<lparr>bulk_resp := r\<rparr>) c = prelude W c"
  by (simp add: prelude_def newClient_def indexExists_def lifecycle_bulk_resp)

lemma createIndex_bulk_resp: "createIndex (W\<lparr>bulk_resp := r\<rparr>) c ex = createIndex W c ex"
  by (simp add: createIndex_def buildCreateIndexBody_def cong: if_cong)

lemma loadData_bulk_resp: "loadData J (W\<lparr>bulk_resp := r\<rparr>) c = loadData J W c"
  by (simp add: loadData_def)

lemma before_loop_bulk_resp: "before_loop J (W\<lparr>bulk_resp := r\<rparr>) c = before_loop J W c"
  by (simp add: before_loop_def prelude_bulk_resp createIndex_bulk_resp loadData_bulk_resp)

lemma demo_batches_2:
  \<open>batches 2 demo_docs = [[''{"id":1}'', ''{"id":2}''], [''{"id":3}'']]\<close>
  by (simp add: batches_def demo_docs_def)

lemma demo_batches_1:
  \<open>batches 1 demo_docs = [[''{"id":1}''], [''{"id":2}''], [''{"id":3}'']]\<close>
  by (simp add: batches_def demo_docs_def)

lemma complete_run:
  assumes "before_loop J W c = (t, Value docs)"
    and "1 \<le> batchSize c" and "batchSize c < 2 ^ 63" and "length docs < 2 ^ 62"
    and "\<forall>m<length (batches (nat (batchSize c)) docs). bulk_resp W m \<noteq> TransportError"
  shows "\<exists>tr. main J W c = Some (tr, Exit 0) \<and>
           bulk_requests tr = map (bulk_body J (index c)) (batches (nat (batchSize c)) docs)"
proof -
  define b where "b = nat (batchSize c)"
  have B: "0 < b" "int b < 2 ^ 63" and bB: "int b = batchSize c"
    using assms(2,3) by (simp_all add: b_def)
  have ok: "\<forall>m<length (batches b docs). bulk_resp W m \<noteq> TransportError"
    using assms(5) by (simp add: b_def)
  define tr where "tr = t @ concat (map (batch_events J (index c) docs b) [0..<length (batches b docs)])
                          @ [Log Info ''Bulk load completed'']"
  have run: "main J W c = Some (tr, Exit 0)"
    unfolding main_reaches_loop[OF assms(1)] bB[symmetric] tr_def
    by (rule loop_complete[OF B assms(4) ok])
  have "bulk_requests t = []" using no_bulk_before_loop[of J W c] by (simp add: assms(1))
  moreover have "bulk_requests tr = bulk_requests t @
      bulk_requests (concat (map (batch_events J (index c) docs b) [0..<length (batches b docs)])
                          @ [Log Info ''Bulk load completed''])"
    unfolding tr_def by (rule bulk_requests_append)
  ultimately have reqs: "bulk_requests tr = map (bulk_body J (index c)) (batches b docs)"
    by (simp only: bulk_requests_complete append_Nil)
  show ?thesis
    unfolding b_def[symmetric] by (intro exI[of _ tr] conjI) (rule run reqs)+
qed

lemma length_batches_ceiling:
  assumes "1 \<le> B"
  shows "length (batches (nat B) docs) = nat \<lceil>real (length docs) / real_of_int B\<rceil>"
proof -
  have "0 < nat B" using assms by simp
  from nbatches_ceiling[OF this, of "length docs"]
  have "length (batches (nat B) docs) = nat \<lceil>real (length docs) / real (nat B)\<rceil>"
    by (simp only: length_batches)
  moreover have "real (nat B) = real_of_int B" using assms by simp
  ultimately show ?thesis by simp
qed

text \<open>
  Claim C2. Take a run that reaches the upload loop with the documents \<open>docs\<close>, a batch size
  \<open>B \<ge> 1\<close> (a 64-bit integer) and a document count that a Go slice can have (below \<open>2\<^sup>6\<^sup>2\<close>),
  in which no bulk request meets a transport error. The run ends with exit status 0; its bulk
  requests are, in order, the bodies of the batches of \<open>docs\<close>; there are \<open>\<lceil>N / B\<rceil>\<close> of them; the
  batches concatenated give back \<open>docs\<close>; batch \<open>j\<close> is the contiguous slice of at most \<open>B\<close>
  documents starting at document \<open>j * B\<close>, it is not empty, and every batch but the last has
  exactly \<open>B\<close> documents.
\<close>

theorem upload_in_batches:
  assumes "before_loop J W c = (t, Value docs)"
    and "1 \<le> batchSize c" and "batchSize c < 2 ^ 63" and "length docs < 2 ^ 62"
    and "\<forall>m<length (batches (nat (batchSize c)) docs). bulk_resp W m \<noteq> TransportError"
  shows "\<exists>tr. main J W c = Some (tr, Exit 0) \<and>
           bulk_requests tr = map (bulk_body J (index c)) (batches (nat (batchSize c)) docs) \<and>
           length (bulk_requests tr) = nat \<lceil>real (length docs) / real_of_int (batchSize c)\<rceil> \<and>
           concat (batches (nat (batchSize c)) docs) = docs \<and>
           (\<forall>j<length (batches (nat (batchSize c)) docs).
              batches (nat (batchSize c)) docs ! j =
                take (nat (batchSize c)) (drop (j * nat (batchSize c)) docs) \<and>
              0 < length (batches (nat (batchSize c)) docs ! j) \<and>
              length (batches (nat (batchSize c)) docs ! j) \<le> nat (batchSize c) \<and>
              (Suc j < length (batches (nat (batchSize c)) docs) \<longrightarrow>
                 length (batches (nat (batchSize c)) docs ! j) = nat (batchSize c)))"
proof -
  define b where "b = nat (batchSize c)"
  have B: "0 < b" using assms(2) by (simp add: b_def)
  from complete_run[OF assms]
  obtain tr where run: "main J W c = Some (tr, Exit 0)"
    and reqs: "bulk_requests tr = map (bulk_body J (index c)) (batches b docs)"
    unfolding b_def by (elim exE conjE)
  have n: "length (bulk_requests tr) = nat \<lceil>real (length docs) / real_of_int (batchSize c)\<rceil>"
    unfolding reqs b_def using length_batches_ceiling[OF assms(2), of docs] by simp
  have cat: "concat (batches b docs) = docs" by (rule concat_batches[OF B])
  have each: "\<forall>j<length (batches b docs).
              batches b docs ! j = take b (drop (j * b) docs) \<and>
              0 < length (batches b docs ! j) \<and>
              length (batches b docs ! j) \<le> b \<and>
              (Suc j < length (batches b docs) \<longrightarrow> length (batches b docs ! j) = b)"
  proof (intro allI impI conjI)
    fix j assume j: "j < length (batches b docs)"
    show "batches b docs ! j = take b (drop (j * b) docs)" by (rule nth_batches[OF j])
    show "0 < length (batches b docs ! j)" by (rule length_batch(2)[OF B j])
    show "length (batches b docs ! j) \<le> b" by (simp add: length_batch(1)[OF B j])
    show "length (batches b docs ! j) = b" if "Suc j < length (batches b docs)"
      by (rule full_batch[OF B that])
  qed
  from run reqs n cat each show ?thesis unfolding b_def by blast
qed

theorem upload_in_batches_witness:
  \<open>1 \<le> batchSize demo_config \<and> length demo_docs = 3 \<and>
   (\<exists>tr. main demo_json demo_world demo_config = Some (tr, Exit 0) \<and>
         bulk_requests tr =
           map (bulk_body demo_json ''my-index'')
             [[''{"id":1}'', ''{"id":2}''], [''{"id":3}'']])\<close>
proof -
  have b: "batchSize demo_config = 2" "index demo_config = ''my-index''"
    by (simp_all add: demo_config_def)
  have n: "nat (batchSize demo_config) = 2" by (simp add: b)
  have h: "1 \<le> batchSize demo_config" "batchSize demo_config < 2 ^ 63"
    "length demo_docs < 2 ^ 62" by (simp_all add: b demo_docs_def)
  have "\<forall>m<length (batches (nat (batchSize demo_config)) demo_docs).
          bulk_resp demo_world m \<noteq> TransportError"
    by (simp add: demo_world_def)
  from upload_in_batches[OF demo_before_loop h this]
  obtain tr where r: "main demo_json demo_world demo_config = Some (tr, Exit 0)"
    and q: "bulk_requests tr = map (bulk_body demo_json (index demo_config))
           (batches (nat (batchSize demo_config)) demo_docs)"
    by (elim exE conjE)
  have q': \<open>bulk_requests tr =
           map (bulk_body demo_json ''my-index'')
             [[''{"id":1}'', ''{"id":2}''], [''{"id":3}'']]\<close>
    by (simp add: q b demo_batches_2)
  have l: "length demo_docs = 3" by (simp add: demo_docs_def)
  show ?thesis
    by (intro conjI exI[of _ tr]) (rule h(1) l r q')+
qed

text \<open>
  Claim C8. Take a run that reaches the upload loop with a batch size \<open>B \<ge> 1\<close>, in which the
  requests for the batches before batch \<open>f\<close> meet no transport error and the request for batch
  \<open>f\<close> does. The run ends with exit status 1 and its last event is the fatal log line of
  \<^verbatim>\<open>checkErr\<close>. The bulk requests of the whole run are the bodies of the batches \<open>0\<close> to \<open>f\<close>, each
  once and in order: batch \<open>f\<close> is not sent again and no batch after it is sent.
\<close>

theorem bulk_error_aborts:
  assumes "before_loop J W c = (t, Value docs)"
    and "1 \<le> batchSize c" and "batchSize c < 2 ^ 63" and "length docs < 2 ^ 62"
    and "f < length (batches (nat (batchSize c)) docs)"
    and "\<forall>m<f. bulk_resp W m \<noteq> TransportError"
    and "bulk_resp W f = TransportError"
  shows "\<exists>tr. main J W c = Some (tr, Exit 1) \<and>
           bulk_requests tr =
             map (bulk_body J (index c)) (take (Suc f) (batches (nat (batchSize c)) docs)) \<and>
           length (bulk_requests tr) = Suc f \<and>
           last tr = Log Fatal ''Error during bulk insert''"
proof -
  define b where "b = nat (batchSize c)"
  have B: "0 < b" "int b < 2 ^ 63" and bB: "int b = batchSize c"
    using assms(2,3) by (simp_all add: b_def)
  have f: "f < length (batches b docs)" using assms(5) by (simp add: b_def)
  define ev where "ev = concat (map (batch_events J (index c) docs b) [0..<f])
                  @ [Bulk (bulk_body J (index c) (take b (drop (f * b) docs))),
                     Log Fatal ''Error during bulk insert'']"
  have run: "main J W c = Some (t @ ev, Exit 1)"
    unfolding main_reaches_loop[OF assms(1)] bB[symmetric] ev_def
    by (rule loop_fails[OF B assms(4) f assms(6,7)])
  have "bulk_requests t = []" using no_bulk_before_loop[of J W c] by (simp add: assms(1))
  moreover have "bulk_requests (t @ ev) = bulk_requests t @ bulk_requests ev"
    by (rule bulk_requests_append)
  ultimately have reqs: "bulk_requests (t @ ev) =
      map (bulk_body J (index c)) (take (Suc f) (batches b docs))"
    unfolding ev_def by (simp only: bulk_requests_failed[OF f] append_Nil)
  have n: "length (bulk_requests (t @ ev)) = Suc f"
    unfolding reqs using f by simp
  have l: "last (t @ ev) = Log Fatal ''Error during bulk insert''"
    by (simp add: ev_def)
  show ?thesis
    unfolding b_def[symmetric]
    by (intro exI[of _ "t @ ev"] conjI) (rule run reqs n l)+
qed

theorem bulk_error_aborts_witness:
  \<open>bulk_resp (demo_world\<lparr>bulk_resp := (\<lambda>k. if k = 1 then TransportError else Status 200)\<rparr>) 1
     = TransportError \<and>
   (\<exists>tr. main demo_json
            (demo_world\<lparr>bulk_resp := (\<lambda>k. if k = 1 then TransportError else Status 200)\<rparr>)
            (demo_config\<lparr>batchSize := 1\<rparr>) = Some (tr, Exit 1) \<and>
         bulk_requests tr =
           map (bulk_body demo_json ''my-index'') [[''{"id":1}''], [''{"id":2}'']])\<close>
proof -
  define W where "W = demo_world\<lparr>bulk_resp := (\<lambda>k. if k = 1 then TransportError else Status 200)\<rparr>"
  define c where "c = demo_config\<lparr>batchSize := 1\<rparr>"
  have "before_loop demo_json W c = before_loop demo_json demo_world demo_config"
    unfolding W_def c_def before_loop_bulk_resp before_loop_batchSize ..
  note bl = trans[OF this demo_before_loop]
  have b: "batchSize c = 1" "index c = ''my-index''"
    and bn: "nat (batchSize c) = 1"
    by (simp_all add: c_def demo_config_def)
  have len: "length (batches (nat (batchSize c)) demo_docs) = 3"
    unfolding bn demo_batches_1 by simp
  have h: "1 \<le> batchSize c" "batchSize c < 2 ^ 63" "length demo_docs < 2 ^ 62"
    "1 < length (batches (nat (batchSize c)) demo_docs)"
    "\<forall>m<1. bulk_resp W m \<noteq> TransportError" "bulk_resp W 1 = TransportError"
    unfolding len by (simp_all add: b demo_docs_def W_def)
  from bulk_error_aborts[OF bl h]
  obtain tr where r: "main demo_json W c = Some (tr, Exit 1)"
    and q: "bulk_requests tr = map (bulk_body demo_json (index c))
           (take (Suc 1) (batches (nat (batchSize c)) demo_docs))"
    by (elim exE conjE)
  have q': \<open>bulk_requests tr =
           map (bulk_body demo_json ''my-index'') [[''{"id":1}''], [''{"id":2}'']]\<close>
    unfolding q bn demo_batches_1 by (simp add: b)
  show ?thesis
    unfolding W_def[symmetric] c_def[symmetric]
    by (intro conjI exI[of _ tr]) (rule h(6) r q')+
qed

section \<open>The batch size is not validated\<close>

lemma main_batchSize:
  assumes "before_loop J W c = (t, Value docs)"
  shows "main J W (c\<lparr>batchSize := B\<rparr>) = upload_loop J W (index c) docs B 0 0 t"
proof -
  have "before_loop J W (c\<lparr>batchSize := B\<rparr>) = (t, Value docs)"
    unfolding before_loop_batchSize by (rule assms)
  from main_reaches_loop[OF this] show ?thesis by simp
qed

text \<open>
  Claim C10, as amended. No step before the loop looks at the batch size, so a run that
  reaches the loop with some batch size reaches it with every batch size \<open>B\<close>. Let there be
  fewer than \<open>2\<^sup>6\<^sup>2\<close> documents and let no bulk request meet a transport error. For
  \<open>1 \<le> B < 2\<^sup>6\<^sup>3\<close> the run ends with exit status 0 after \<open>\<lceil>N / B\<rceil>\<close> iterations, one bulk request
  each. For \<open>B = 0\<close> and a non-empty document set the run has no result: the loop variable
  stays at 0 and the loop never ends. For \<open>- 2\<^sup>6\<^sup>3 \<le> B < 0\<close> and a non-empty document set the
  first iteration panics at the slice expression, before any bulk request, and the run ends
  there.
\<close>

theorem batch_size_unchecked:
  assumes "before_loop J W c = (t, Value docs)" and "length docs < 2 ^ 62"
    and "\<forall>m. bulk_resp W m \<noteq> TransportError"
  shows "(1 \<le> B \<and> B < 2 ^ 63 \<longrightarrow>
            (\<exists>tr. main J W (c\<lparr>batchSize := B\<rparr>) = Some (tr, Exit 0) \<and>
                  length (bulk_requests tr) = nat \<lceil>real (length docs) / real_of_int B\<rceil>)) \<and>
         (docs \<noteq> [] \<longrightarrow> main J W (c\<lparr>batchSize := 0\<rparr>) = None) \<and>
         (docs \<noteq> [] \<and> - (2 ^ 63) \<le> B \<and> B < 0 \<longrightarrow>
            main J W (c\<lparr>batchSize := B\<rparr>) = Some (t, Panic))"
proof (intro conjI impI)
  assume B: "1 \<le> B \<and> B < 2 ^ 63"
  let ?c = "c\<lparr>batchSize := B\<rparr>"
  have bl: "before_loop J W ?c = (t, Value docs)"
    unfolding before_loop_batchSize by (rule assms(1))
  have h: "1 \<le> batchSize ?c" "batchSize ?c < 2 ^ 63" using B by simp_all
  have ok: "\<forall>m<length (batches (nat (batchSize ?c)) docs). bulk_resp W m \<noteq> TransportError"
    using assms(3) by simp
  from complete_run[OF bl h assms(2) ok]
  obtain tr where r: "main J W ?c = Some (tr, Exit 0)"
    and q: "bulk_requests tr = map (bulk_body J (index ?c)) (batches (nat (batchSize ?c)) docs)"
    by (elim exE conjE)
  have "1 \<le> B" using B by simp
  from length_batches_ceiling[OF this, of docs]
  have "length (bulk_requests tr) = nat \<lceil>real (length docs) / real_of_int B\<rceil>"
    unfolding q by simp
  with r show "\<exists>tr. main J W ?c = Some (tr, Exit 0) \<and>
                  length (bulk_requests tr) = nat \<lceil>real (length docs) / real_of_int B\<rceil>"
    by (intro exI[of _ tr] conjI)
next
  assume "docs \<noteq> []"
  then show "main J W (c\<lparr>batchSize := 0\<rparr>) = None"
    unfolding main_batchSize[OF assms(1)] by (rule loop_zero_diverges[OF _ assms(3)])
next
  assume "docs \<noteq> [] \<and> - (2 ^ 63) \<le> B \<and> B < 0"
  then have "docs \<noteq> []" "- (2 ^ 63) \<le> B" "B < 0" by simp_all
  then show "main J W (c\<lparr>batchSize := B\<rparr>) = Some (t, Panic)"
    unfolding main_batchSize[OF assms(1)] by (rule loop_negative_panics)
qed

theorem batch_size_unchecked_witness:
  "demo_docs \<noteq> [] \<and>
   main demo_json demo_world (demo_config\<lparr>batchSize := 0\<rparr>) = None \<and>
   (\<exists>tr. main demo_json demo_world (demo_config\<lparr>batchSize := 2\<rparr>) = Some (tr, Exit 0) \<and>
         length (bulk_requests tr) = 2) \<and>
   (\<exists>t. before_loop demo_json demo_world demo_config = (t, Value demo_docs) \<and>
        main demo_json demo_world (demo_config\<lparr>batchSize := - 5\<rparr>) = Some (t, Panic))"
proof -
  have h: "demo_docs \<noteq> []" "length demo_docs < 2 ^ 62"
    "\<forall>m. bulk_resp demo_world m \<noteq> TransportError"
    by (simp_all add: demo_docs_def demo_world_def)
  note T = batch_size_unchecked[OF demo_before_loop h(2,3)]
  have c: "\<lceil>real (length demo_docs) / real_of_int 2\<rceil> = 2"
    by (simp add: demo_docs_def ceiling_eq_iff)
  from T[of 2] have two: "\<exists>tr. main demo_json demo_world (demo_config\<lparr>batchSize := 2\<rparr>) = Some (tr, Exit 0) \<and>
         length (bulk_requests tr) = 2"
    unfolding c by simp
  from T[of 0] h(1)
  have zero: "main demo_json demo_world (demo_config\<lparr>batchSize := 0\<rparr>) = None"
    by blast
  from T[of "- 5"] have neg: "main demo_json demo_world (demo_config\<lparr>batchSize := - 5\<rparr>) =
      Some (fst (before_loop demo_json demo_world demo_config), Panic)"
    using h(1) by (simp add: demo_before_loop)
  have "\<exists>t. before_loop demo_json demo_world demo_config = (t, Value demo_docs) \<and>
        main demo_json demo_world (demo_config\<lparr>batchSize := - 5\<rparr>) = Some (t, Panic)"
    using neg by (simp add: demo_before_loop)
  with h(1) zero two show ?thesis by (intro conjI)
qed

text \<open>
  The claim as it was written says that the loop does not end for any batch size \<open>B \<le> 0\<close>
  and a non-empty document set. With batch size \<open>- 1\<close> the loop of the example run ends at
  once, by a panic, and no bulk request is made.
\<close>

theorem negative_batch_size_panics:
  \<open>main demo_json demo_world (demo_config\<lparr>batchSize := - 1\<rparr>) =
     Some ([NewClient \<lparr>Addresses = [''http://localhost:9200''], InsecureSkipVerify = False,
                        Username = [], Password = [], APIKey = []\<rparr>,
            IndicesExists ''my-index'',
            Log Info ''Creating index before loading data'',
            IndicesCreate ''my-index'' ''{"settings": {}, "mappings": {}}'',
            Log Info ''Index created'',
            Log Info ''Starting bulk insert''], Panic)\<close>
proof -
  have "demo_docs \<noteq> []" by (simp add: demo_docs_def)
  from loop_negative_panics[OF this, of "- 1"] show ?thesis
    unfolding main_batchSize[OF demo_before_loop] by simp
qed

section \<open>Settings and mappings files are not parsed\<close>

lemma before_loop_from_prelude:
  assumes "prelude W c = (t, Value ex)"
  shows "before_loop J W c =
         thn (t, Value ()) (\<lambda>_.
         thn (createIndex W c ex) (\<lambda>_.
         thn (loadData J W c) (\<lambda>records.
         thn (emit (Log Info ''Starting bulk insert'')) (\<lambda>_. ret records))))"
  unfolding before_loop_def assms by (simp add: thn_def)

lemma createIndex_unreadable:
  assumes "buildCreateIndexBody W (settingsFile c) (mappingsFile c) = (u, Halt s)"
    and "prelude W c = (t, Value False)"
  shows "main J W c = Some (t @ u, s)"
  unfolding main_def before_loop_from_prelude[OF assms(2)]
  by (simp add: createIndex_def thn_def assms(1))

lemma no_create_iff: "\<not> list_ex is_create t \<longleftrightarrow> filter is_create t = []"
  by (simp add: list_ex_iff filter_empty_conv)

lemma no_create_thn:
  assumes "filter is_create (fst m) = []" and "\<And>a. filter is_create (fst (k a)) = []"
  shows "filter is_create (fst (thn m k)) = []"
proof (cases m)
  case (Pair t r)
  show ?thesis
  proof (cases r)
    case (Halt s)
    with Pair assms(1) show ?thesis by (simp add: thn_def)
  next
    case (Value a)
    with Pair assms(1) assms(2)[of a] show ?thesis
      by (cases "k a") (simp add: thn_def)
  qed
qed

lemma no_create_simps:
  "filter is_create (fst (ret a)) = []"
  "filter is_create (fst (fatal msg)) = []"
  "filter is_create (fst (emit (Log l msg))) = []"
  "filter is_create (fst (emit (NewClient cfg))) = []"
  "filter is_create (fst (emit (IndicesExists idx))) = []"
  "filter is_create (fst (emit (IndicesDelete idx))) = []"
  by (simp_all add: ret_def fatal_def emit_def)

lemma no_create_checkErr:
  "filter is_create (fst k) = [] \<Longrightarrow> filter is_create (fst (checkErr ctx err k)) = []"
  by (simp add: checkErr_def no_create_simps)

lemma no_create_validate: "filter is_create (fst (validate c)) = []"
  by (simp add: validate_def ret_def)

lemma no_create_newClient: "filter is_create (fst (newClient W cfg)) = []"
  unfolding newClient_def by (intro no_create_thn no_create_checkErr no_create_simps)

lemma no_create_indexExists: "filter is_create (fst (indexExists W idx)) = []"
  unfolding indexExists_def
  by (intro no_create_thn no_create_simps) (simp add: no_create_simps split: response.splits)

lemma no_create_deleteAndCheck: "filter is_create (fst (deleteAndCheck W idx)) = []"
  unfolding deleteAndCheck_def
  by (intro no_create_thn no_create_checkErr no_create_simps) (simp add: no_create_simps)

lemma no_create_lifecycle: "filter is_create (fst (lifecycle W c ex)) = []"
  unfolding lifecycle_def
  by (auto intro!: no_create_thn no_create_deleteAndCheck no_create_simps)

lemma no_create_prelude: "filter is_create (fst (prelude W c)) = []"
  unfolding prelude_def
  by (intro no_create_thn no_create_validate no_create_newClient no_create_indexExists)
     (auto intro!: no_create_checkErr no_create_lifecycle)

lemma no_create_loadData: "filter is_create (fst (loadData J W c)) = []"
  unfolding loadData_def
  by (auto intro!: no_create_checkErr no_create_simps split: option.splits)

lemma prelude_halts:
  assumes "prelude W c = (t, Halt s)"
  shows "main J W c = Some (t, s)"
  by (simp add: main_def before_loop_def assms thn_def)

lemma no_create_load_only: "filter is_create (fst (load_only J W c)) = []"
  unfolding load_only_def by (intro no_create_thn no_create_loadData no_create_simps)

lemma before_loop_kept:
  assumes "prelude W c = (t, Value True)"
  shows "before_loop J W c = thn (t, Value ()) (\<lambda>_. load_only J W c)"
  unfolding before_loop_from_prelude[OF assms] load_only_def
  by (simp add: createIndex_def ret_def thn_def split: prod.splits result.splits)

text \<open>The loop sends no create request.\<close>

lemma loop_no_create:
  fixes J :: "'a json"
  assumes "upload_loop J W idx docs B i k tr = Some y"
  shows "filter is_create (fst y) = filter is_create tr"
proof (rule upload_loop.raw_induct[where P = "\<lambda>J W idx docs B i k tr y.
         filter is_create (fst y) = filter is_create tr", OF _ assms])
  fix f :: "'a json \<Rightarrow> world \<Rightarrow> string \<Rightarrow> 'a list \<Rightarrow> int \<Rightarrow> int \<Rightarrow> nat \<Rightarrow> event list
              \<Rightarrow> (event list \<times> status) option"
    and J :: "'a json" and W idx and docs :: "'a list" and B i k tr y
  assume IH: "\<And>J W idx docs B i k tr y. f J W idx docs B i k tr = Some y \<Longrightarrow>
      filter is_create (fst y) = filter is_create tr"
  define end1 where "end1 = (if wrap64 (i + B) > int (length docs) then int (length docs)
                             else wrap64 (i + B))"
  assume "(if i < int (length docs) then
        (let end0 = wrap64 (i + B);
             end1 = (if end0 > int (length docs) then int (length docs) else end0)
         in if \<not> (0 \<le> i \<and> i \<le> end1) then Some (tr, Panic)
            else
              (case bulk_resp W k of
                 TransportError \<Rightarrow>
                   Some (tr @ [Bulk (bulk_body J idx (slice docs i end1)),
                               Log Fatal ''Error during bulk insert''], Exit 1)
               | Status _ \<Rightarrow>
                   f J W idx docs B (wrap64 (i + B)) (Suc k)
                     (tr @ [Bulk (bulk_body J idx (slice docs i end1)),
                            BatchInserted end1 (int (length docs))])))
      else Some (tr @ [Log Info ''Bulk load completed''], Exit 0)) = Some y"
  then have body: "(if i < int (length docs) then
         (if \<not> (0 \<le> i \<and> i \<le> end1) then Some (tr, Panic)
            else
              (case bulk_resp W k of
                 TransportError \<Rightarrow>
                   Some (tr @ [Bulk (bulk_body J idx (slice docs i end1)),
                               Log Fatal ''Error during bulk insert''], Exit 1)
               | Status _ \<Rightarrow>
                   f J W idx docs B (wrap64 (i + B)) (Suc k)
                     (tr @ [Bulk (bulk_body J idx (slice docs i end1)),
                            BatchInserted end1 (int (length docs))])))
      else Some (tr @ [Log Info ''Bulk load completed''], Exit 0)) = Some y"
    unfolding end1_def Let_def .
  show "filter is_create (fst y) = filter is_create tr"
  proof (cases "i < int (length docs)")
    case False
    with body have "y = (tr @ [Log Info ''Bulk load completed''], Exit 0)" by simp
    then show ?thesis by simp
  next
    case True
    show ?thesis
    proof (cases "0 \<le> i \<and> i \<le> end1")
      case False
      with True body have "y = (tr, Panic)" by simp
      then show ?thesis by simp
    next
      case chk: True
      show ?thesis
      proof (cases "bulk_resp W k")
        case TransportError
        with True chk body have "y = (tr @ [Bulk (bulk_body J idx (slice docs i end1)),
                               Log Fatal ''Error during bulk insert''], Exit 1)" by simp
        then show ?thesis by simp
      next
        case (Status st)
        with True chk body have "f J W idx docs B (wrap64 (i + B)) (Suc k)
                     (tr @ [Bulk (bulk_body J idx (slice docs i end1)),
                            BatchInserted end1 (int (length docs))]) = Some y" by simp
        from IH[OF this] show ?thesis by simp
      qed
    qed
  qed
qed

lemma main_kept_no_create:
  assumes "prelude W c = (t, Value True)" and "main J W c = Some y"
  shows "\<not> list_ex is_create (fst y)"
proof -
  have t: "filter is_create (fst (t, Value ())) = []"
    using no_create_prelude[of W c] by (simp add: assms(1))
  have bl: "filter is_create (fst (before_loop J W c)) = []"
    unfolding before_loop_kept[OF assms(1)] by (intro no_create_thn no_create_load_only t)
  show ?thesis
  proof (cases "before_loop J W c")
    case (Pair u r)
    with bl have u: "filter is_create u = []" by simp
    show ?thesis
    proof (cases r)
      case (Halt s)
      with Pair assms(2) have "y = (u, s)" by (simp add: main_def)
      with u show ?thesis by (simp add: no_create_iff)
    next
      case (Value docs)
      with Pair assms(2) have "upload_loop J W (index c) docs (batchSize c) 0 0 u = Some y"
        by (simp add: main_def)
      from loop_no_create[OF this] u show ?thesis by (simp add: no_create_iff)
    qed
  qed
qed

text \<open>
  Claim C4, as amended. Let \<open>t\<close> be the trace and \<open>r\<close> the result of the program up to and
  including the decision on the index. No create request has been sent in \<open>t\<close>. If the run
  has ended there, that is the whole run. If the index is to be created (it was absent, or
  it was deleted): when the settings file is named and cannot be read, or the settings are in
  order and the mappings file is named and cannot be read, the run ends with a fatal log line
  and exit status 1 right there, before any create request; otherwise the create request is
  sent next, and its body holds the contents \<open>S\<close> and \<open>M\<close> of the files unchanged, whatever they
  are: nothing checks that they are JSON. If the index exists and is kept, neither file is
  opened: the program goes on to load the data, and no create request is sent in the run.
\<close>

theorem settings_not_validated:
  assumes "prelude W c = (t, r)"
  shows \<open>\<not> list_ex is_create t \<and>
         (r = Halt s \<longrightarrow> main J W c = Some (t, s)) \<and>
         (r = Value False \<and> settingsFile c \<noteq> [] \<and> files W (settingsFile c) = None \<longrightarrow>
            main J W c = Some (t @ [Log Fatal ''Reading settings file''], Exit 1)) \<and>
         (r = Value False \<and> (settingsFile c = [] \<or> files W (settingsFile c) = Some S) \<and>
          mappingsFile c \<noteq> [] \<and> files W (mappingsFile c) = None \<longrightarrow>
            main J W c = Some (t @ [Log Fatal ''Reading mappings file''], Exit 1)) \<and>
         (r = Value False \<and> (settingsFile c = [] \<or> files W (settingsFile c) = Some S) \<and>
          (mappingsFile c = [] \<or> files W (mappingsFile c) = Some M) \<longrightarrow>
            (\<exists>rest r'. before_loop J W c =
               (t @ IndicesCreate (index c)
                      (''{"settings": '' @ (if settingsFile c = [] then ''{}'' else S) @
                       '', "mappings": '' @ (if mappingsFile c = [] then ''{}'' else M) @ ''}'')
                    # rest, r'))) \<and>
         (r = Value True \<longrightarrow>
            before_loop J W c = thn (t, Value ()) (\<lambda>_. load_only J W c) \<and>
            \<not> list_ex is_create (fst (before_loop J W c)) \<and>
            (\<forall>y. main J W c = Some y \<longrightarrow> \<not> list_ex is_create (fst y)))\<close>
proof (intro conjI impI)
  show "\<not> list_ex is_create t"
    using no_create_prelude[of W c] by (simp add: assms no_create_iff)
next
  assume "r = Halt s"
  with assms show "main J W c = Some (t, s)" by (simp add: prelude_halts)
next
  assume a: "r = Value False \<and> settingsFile c \<noteq> [] \<and> files W (settingsFile c) = None"
  then have p: "prelude W c = (t, Value False)" using assms by simp
  from a have "buildCreateIndexBody W (settingsFile c) (mappingsFile c) =
      ([Log Fatal ''Reading settings file''], Halt (Exit 1))"
    by (simp add: buildCreateIndexBody_def prog_defs)
  from createIndex_unreadable[OF this p]
  show "main J W c = Some (t @ [Log Fatal ''Reading settings file''], Exit 1)" .
next
  assume a: "r = Value False \<and> (settingsFile c = [] \<or> files W (settingsFile c) = Some S) \<and>
          mappingsFile c \<noteq> [] \<and> files W (mappingsFile c) = None"
  then have p: "prelude W c = (t, Value False)" using assms by simp
  from a have "buildCreateIndexBody W (settingsFile c) (mappingsFile c) =
      ([Log Fatal ''Reading mappings file''], Halt (Exit 1))"
    by (auto simp: buildCreateIndexBody_def prog_defs)
  from createIndex_unreadable[OF this p]
  show "main J W c = Some (t @ [Log Fatal ''Reading mappings file''], Exit 1)" .
next
  assume a: "r = Value False \<and> (settingsFile c = [] \<or> files W (settingsFile c) = Some S) \<and>
          (mappingsFile c = [] \<or> files W (mappingsFile c) = Some M)"
  then have p: "prelude W c = (t, Value False)" using assms by simp
  define body where \<open>body = ''{"settings": '' @ (if settingsFile c = [] then ''{}'' else S) @
                       '', "mappings": '' @ (if mappingsFile c = [] then ''{}'' else M) @ ''}''\<close>
  have b: "buildCreateIndexBody W (settingsFile c) (mappingsFile c) = ([], Value body)"
    using a unfolding body_def by (auto simp: buildCreateIndexBody_def prog_defs)
  obtain u q where ci: "createIndex W c False = (IndicesCreate (index c) body # u, q)"
    by (cases "create_resp W = TransportError") (simp_all add: createIndex_def b prog_defs)
  have "\<exists>rest r'. before_loop J W c = (t @ IndicesCreate (index c) body # rest, r')"
    unfolding before_loop_from_prelude[OF p]
    by (cases q) (simp_all add: thn_def ci split: prod.splits result.splits)
  then show \<open>\<exists>rest r'. before_loop J W c =
               (t @ IndicesCreate (index c)
                      (''{"settings": '' @ (if settingsFile c = [] then ''{}'' else S) @
                       '', "mappings": '' @ (if mappingsFile c = [] then ''{}'' else M) @ ''}'')
                    # rest, r')\<close>
    unfolding body_def .
next
  assume "r = Value True"
  then have p: "prelude W c = (t, Value True)" using assms by simp
  show k: "before_loop J W c = thn (t, Value ()) (\<lambda>_. load_only J W c)"
    by (rule before_loop_kept[OF p])
  have "filter is_create (fst (t, Value ())) = []"
    using no_create_prelude[of W c] by (simp add: assms)
  then show "\<not> list_ex is_create (fst (before_loop J W c))"
    unfolding k no_create_iff by (intro no_create_thn no_create_load_only)
  show "\<forall>y. main J W c = Some y \<longrightarrow> \<not> list_ex is_create (fst y)"
    using main_kept_no_create[OF p] by blast
qed

lemma demo_loop:
  \<open>upload_loop demo_json demo_world ''my-index'' demo_docs 2 0 0 tr =
     Some (tr @ [Bulk (bulk_body demo_json ''my-index'' [''{"id":1}'', ''{"id":2}'']),
                 BatchInserted 2 3,
                 Bulk (bulk_body demo_json ''my-index'' [''{"id":3}'']),
                 BatchInserted 3 3,
                 Log Info ''Bulk load completed''], Exit 0)\<close>
proof -
  have ok: "\<forall>m<length (batches 2 demo_docs). bulk_resp demo_world m \<noteq> TransportError"
    by (simp add: demo_world_def)
  have N: "length demo_docs < 2 ^ 62" by (simp add: demo_docs_def)
  have ev: \<open>concat (map (batch_events demo_json ''my-index'' demo_docs 2)
                      [0..<length (batches 2 demo_docs)]) =
            [Bulk (bulk_body demo_json ''my-index'' [''{"id":1}'', ''{"id":2}'']),
             BatchInserted 2 3,
             Bulk (bulk_body demo_json ''my-index'' [''{"id":3}'']),
             BatchInserted 3 3]\<close>
    unfolding demo_batches_2 by (simp add: batch_events_def demo_docs_def)
  from loop_complete[of 2 demo_docs demo_world demo_json "''my-index''" tr, OF _ _ N ok]
  show ?thesis unfolding ev by simp
qed

lemma demo_before_loop_broken:
  \<open>before_loop demo_json demo_world (demo_config\<lparr>settingsFile := ''broken.json''\<rparr>) =
     ([NewClient \<lparr>Addresses = [''http://localhost:9200''], InsecureSkipVerify = False,
                  Username = [], Password = [], APIKey = []\<rparr>,
       IndicesExists ''my-index'',
       Log Info ''Creating index before loading data'',
       IndicesCreate ''my-index'' ''{"settings": {"number_of_shards": , "mappings": {}}'',
       Log Info ''Index created'',
       Log Info ''Starting bulk insert''], Value demo_docs)\<close>
  by (simp add: before_loop_def prelude_def validate_def client_config_def newClient_def
      indexExists_def lifecycle_def createIndex_def buildCreateIndexBody_def loadData_def
      prog_defs demo_json_def demo_world_def demo_config_def)

lemma demo_prelude:
  "prelude demo_world (demo_config\<lparr>settingsFile := sf\<rparr>) =
     ([NewClient \<lparr>Addresses = [''http://localhost:9200''], InsecureSkipVerify = False,
                  Username = [], Password = [], APIKey = []\<rparr>,
       IndicesExists ''my-index'',
       Log Info ''Creating index before loading data''], Value False)"
  by (simp add: prelude_def validate_def client_config_def newClient_def
      indexExists_def lifecycle_def prog_defs demo_world_def demo_config_def)

lemma demo_prelude_kept:
  "prelude (demo_world\<lparr>exists_resp := Status 200\<rparr>)
     (demo_config\<lparr>addToIndex := True, settingsFile := ''missing.json''\<rparr>) =
     ([NewClient \<lparr>Addresses = [''http://localhost:9200''], InsecureSkipVerify = False,
                  Username = [], Password = [], APIKey = []\<rparr>,
       IndicesExists ''my-index'',
       Log Info ''Appending documents to existing index''], Value True)"
  by (simp add: prelude_def validate_def client_config_def newClient_def
      indexExists_def lifecycle_def prog_defs demo_world_def demo_config_def)

theorem settings_not_validated_witness:
  \<open>files demo_world ''missing.json'' = None \<and>
   files demo_world ''broken.json'' = Some ''{"number_of_shards": '' \<and>
   main demo_json demo_world (demo_config\<lparr>settingsFile := ''missing.json''\<rparr>) =
     Some ([NewClient \<lparr>Addresses = [''http://localhost:9200''], InsecureSkipVerify = False,
                        Username = [], Password = [], APIKey = []\<rparr>,
            IndicesExists ''my-index'',
            Log Info ''Creating index before loading data'',
            Log Fatal ''Reading settings file''], Exit 1) \<and>
   (\<exists>rest r. before_loop demo_json demo_world (demo_config\<lparr>settingsFile := ''broken.json''\<rparr>) =
      ([NewClient \<lparr>Addresses = [''http://localhost:9200''], InsecureSkipVerify = False,
                   Username = [], Password = [], APIKey = []\<rparr>,
        IndicesExists ''my-index'',
        Log Info ''Creating index before loading data'',
        IndicesCreate ''my-index'' ''{"settings": {"number_of_shards": , "mappings": {}}'']
       @ rest, r)) \<and>
   \<not> list_ex is_create
       (fst (before_loop demo_json (demo_world\<lparr>exists_resp := Status 200\<rparr>)
               (demo_config\<lparr>addToIndex := True, settingsFile := ''missing.json''\<rparr>)))\<close>
proof -
  have f: "files demo_world ''missing.json'' = None"
    \<open>files demo_world ''broken.json'' = Some ''{"number_of_shards": ''\<close>
    by (simp_all add: demo_world_def)
  have m: "settingsFile (demo_config\<lparr>settingsFile := ''missing.json''\<rparr>) = ''missing.json''"
    "settingsFile (demo_config\<lparr>settingsFile := ''broken.json''\<rparr>) = ''broken.json''"
    "mappingsFile (demo_config\<lparr>settingsFile := ''broken.json''\<rparr>) = []"
    "index (demo_config\<lparr>settingsFile := ''broken.json''\<rparr>) = ''my-index''"
    by (simp_all add: demo_config_def)
  from settings_not_validated[OF demo_prelude[of "''missing.json''"], where J = demo_json]
  have a: "main demo_json demo_world (demo_config\<lparr>settingsFile := ''missing.json''\<rparr>) =
     Some ([NewClient \<lparr>Addresses = [''http://localhost:9200''], InsecureSkipVerify = False,
                        Username = [], Password = [], APIKey = []\<rparr>,
            IndicesExists ''my-index'',
            Log Info ''Creating index before loading data'',
            Log Fatal ''Reading settings file''], Exit 1)"
    unfolding m by (simp add: f)
  from settings_not_validated[OF demo_prelude[of "''broken.json''"], where J = demo_json
      and S = \<open>''{"number_of_shards": ''\<close>]
  have b: \<open>\<exists>rest r. before_loop demo_json demo_world (demo_config\<lparr>settingsFile := ''broken.json''\<rparr>) =
      ([NewClient \<lparr>Addresses = [''http://localhost:9200''], InsecureSkipVerify = False,
                   Username = [], Password = [], APIKey = []\<rparr>,
        IndicesExists ''my-index'',
        Log Info ''Creating index before loading data'',
        IndicesCreate ''my-index'' ''{"settings": {"number_of_shards": , "mappings": {}}'']
       @ rest, r)\<close>
    unfolding m by (simp add: f)
  from settings_not_validated[OF demo_prelude_kept, where J = demo_json]
  have k: "\<not> list_ex is_create
       (fst (before_loop demo_json (demo_world\<lparr>exists_resp := Status 200\<rparr>)
               (demo_config\<lparr>addToIndex := True, settingsFile := ''missing.json''\<rparr>)))"
    by blast
  from f a b k show ?thesis by (intro conjI)
qed

text \<open>
  The claim as it was written says that a settings file which is not valid JSON stops the
  program before the create request. The file \<^verbatim>\<open>broken.json\<close> of the example holds the text
  \<^verbatim>\<open>{"number_of_shards": \<close>, which is not JSON; the run sends the create request with that text
  inside the body, goes on to load the documents and ends with exit status 0.
\<close>

theorem malformed_settings_sent:
  \<open>main demo_json demo_world (demo_config\<lparr>settingsFile := ''broken.json''\<rparr>) =
     Some ([NewClient \<lparr>Addresses = [''http://localhost:9200''], InsecureSkipVerify = False,
                        Username = [], Password = [], APIKey = []\<rparr>,
            IndicesExists ''my-index'',
            Log Info ''Creating index before loading data'',
            IndicesCreate ''my-index'' ''{"settings": {"number_of_shards": , "mappings": {}}'',
            Log Info ''Index created'',
            Log Info ''Starting bulk insert'',
            Bulk (bulk_body demo_json ''my-index'' [''{"id":1}'', ''{"id":2}'']),
            BatchInserted 2 3,
            Bulk (bulk_body demo_json ''my-index'' [''{"id":3}'']),
            BatchInserted 3 3,
            Log Info ''Bulk load completed''], Exit 0)\<close>
proof -
  have "index (demo_config\<lparr>settingsFile := ''broken.json''\<rparr>) = ''my-index''"
    "batchSize (demo_config\<lparr>settingsFile := ''broken.json''\<rparr>) = 2"
    by (simp_all add: demo_config_def)
  then show ?thesis
    unfolding main_reaches_loop[OF demo_before_loop_broken] by (simp add: demo_loop)
qed

section \<open>The decision on the index\<close>

text \<open>
  What the switch of lines 82 to 108 does in each of the eight cases. Where the index is
  deleted, the delete request is taken to succeed (a status of at most 299).
\<close>

lemma lifecycle_table:
  "\<not> addToIndex c \<Longrightarrow> \<not> deleteIndex c \<Longrightarrow>
     lifecycle W c False = ([Log Info ''Creating index before loading data''], Value False)"
  "addToIndex c \<Longrightarrow> \<not> deleteIndex c \<Longrightarrow>
     lifecycle W c False = ([Log Info ''Creating index to append documents''], Value False)"
  "\<not> addToIndex c \<Longrightarrow> deleteIndex c \<Longrightarrow>
     lifecycle W c False =
       ([Log Warn ''Index does not exist. Nothing to delete.'',
         Log Info ''Creating index before loading data''], Value False)"
  "addToIndex c \<Longrightarrow> deleteIndex c \<Longrightarrow>
     lifecycle W c False =
       ([Log Warn ''Index does not exist. Nothing to delete.'',
         Log Info ''Creating index to append documents''], Value False)"
  "addToIndex c \<Longrightarrow> \<not> deleteIndex c \<Longrightarrow>
     lifecycle W c True = ([Log Info ''Appending documents to existing index''], Value True)"
  "\<not> addToIndex c \<Longrightarrow> deleteIndex c \<Longrightarrow> delete_resp W = Status n \<Longrightarrow> n \<le> 299 \<Longrightarrow>
     lifecycle W c True = ([Log Info ''Deleting index'', IndicesDelete (index c)], Value False)"
  "addToIndex c \<Longrightarrow> deleteIndex c \<Longrightarrow> delete_resp W = Status n \<Longrightarrow> n \<le> 299 \<Longrightarrow>
     lifecycle W c True =
       ([Log Info ''Deleting and recreating index before adding documents'',
         IndicesDelete (index c)], Value False)"
  "\<not> addToIndex c \<Longrightarrow> \<not> deleteIndex c \<Longrightarrow>
     lifecycle W c True =
       ([Log Fatal ''Index exists. Use -delete to recreate or -add to append.''], Halt (Exit 1))"
  by (simp_all add: lifecycle_def deleteAndCheck_def prog_defs)

text \<open>The index is created exactly when the switch leaves \<^verbatim>\<open>exists\<close> false; when it is left true
  nothing is sent.\<close>

lemma createIndex_present: "createIndex W c True = ([], Value ())"
  by (simp add: createIndex_def ret_def)

lemma main_fatal_when_present:
  assumes "validate c = ([], Value ())" and "new_client W (client_config c)"
    and "exists_resp W = Status 200" and "\<not> addToIndex c" and "\<not> deleteIndex c"
  shows "main J W c =
         Some ([NewClient (client_config c), IndicesExists (index c),
                Log Fatal ''Index exists. Use -delete to recreate or -add to append.''], Exit 1)"
  using assms
  by (simp add: main_def before_loop_def prelude_def newClient_def indexExists_def
      lifecycle_table(8) prog_defs)

text \<open>
  Claim C1. The table of section 4.3 of the specification, and the table of the README, give
  for an absent index with both \<^verbatim>\<open>-add\<close> and \<^verbatim>\<open>-delete\<close> the action "create", and keep the warning
  "nothing to delete" for the row with \<^verbatim>\<open>-delete\<close> alone. The program warns in both rows: the
  run below, on a cluster without the index and with both flags set, logs the warning before
  it creates the index.
\<close>

theorem absent_add_delete_warns:
  \<open>main demo_json demo_world (demo_config\<lparr>addToIndex := True, deleteIndex := True\<rparr>) =
     Some ([NewClient \<lparr>Addresses = [''http://localhost:9200''], InsecureSkipVerify = False,
                        Username = [], Password = [], APIKey = []\<rparr>,
            IndicesExists ''my-index'',
            Log Warn ''Index does not exist. Nothing to delete.'',
            Log Info ''Creating index to append documents'',
            IndicesCreate ''my-index'' ''{"settings": {}, "mappings": {}}'',
            Log Info ''Index created'',
            Log Info ''Starting bulk insert'',
            Bulk (bulk_body demo_json ''my-index'' [''{"id":1}'', ''{"id":2}'']),
            BatchInserted 2 3,
            Bulk (bulk_body demo_json ''my-index'' [''{"id":3}'']),
            BatchInserted 3 3,
            Log Info ''Bulk load completed''], Exit 0)\<close>
proof -
  have bl: \<open>before_loop demo_json demo_world (demo_config\<lparr>addToIndex := True, deleteIndex := True\<rparr>) =
     ([NewClient \<lparr>Addresses = [''http://localhost:9200''], InsecureSkipVerify = False,
                  Username = [], Password = [], APIKey = []\<rparr>,
       IndicesExists ''my-index'',
       Log Warn ''Index does not exist. Nothing to delete.'',
       Log Info ''Creating index to append documents'',
       IndicesCreate ''my-index'' ''{"settings": {}, "mappings": {}}'',
       Log Info ''Index created'',
       Log Info ''Starting bulk insert''], Value demo_docs)\<close>
    by (simp add: before_loop_def prelude_def validate_def client_config_def newClient_def
        indexExists_def lifecycle_def createIndex_def buildCreateIndexBody_def loadData_def
        prog_defs demo_json_def demo_world_def demo_config_def)
  have "index (demo_config\<lparr>addToIndex := True, deleteIndex := True\<rparr>) = ''my-index''"
    "batchSize (demo_config\<lparr>addToIndex := True, deleteIndex := True\<rparr>) = 2"
    by (simp_all add: demo_config_def)
  then show ?thesis
    unfolding main_reaches_loop[OF bl] by (simp add: demo_loop)
qed

section \<open>The body of a bulk request\<close>

text \<open>
  For each document of a batch, in order, the body holds the action line for the index, a
  line feed, the serialised document and a line feed.
\<close>

lemma bulk_body_Nil: "bulk_body J idx [] = []"
  by (simp add: bulk_body_def)

lemma bulk_body_Cons:
  "bulk_body J idx (doc # batch) =
     marshal_meta J idx @ [CHR 0x0A] @ marshal_doc J doc @ [CHR 0x0A] @ bulk_body J idx batch"
  by (simp add: bulk_body_def)

lemma bulk_body_append:
  "bulk_body J idx (xs @ ys) = bulk_body J idx xs @ bulk_body J idx ys"
  by (simp add: bulk_body_def)












section \<open>A failed bulk request is the last one, for every batch size\<close>

lemma failed_last_step:
  assumes "failed_last W (Suc k) (tr @ [Bulk body, BatchInserted e n]) y"
    and "bulk_resp W k \<noteq> TransportError"
  shows "failed_last W k tr y"
proof -
  from assms(1) obtain ext where e: "fst y = (tr @ [Bulk body, BatchInserted e n]) @ ext"
    and a: "\<forall>m<length (bulk_requests ext). bulk_resp W (Suc k + m) \<noteq> TransportError \<or>
                       (Suc m = length (bulk_requests ext) \<and> snd y = Exit 1)"
    unfolding failed_last_def list_all_iff by auto
  define ext' where "ext' = [Bulk body, BatchInserted e n] @ ext"
  have l: "length (bulk_requests ext') = Suc (length (bulk_requests ext))"
    by (simp add: ext'_def bulk_requests_def)
  have "\<forall>m<length (bulk_requests ext'). bulk_resp W (k + m) \<noteq> TransportError \<or>
                       (Suc m = length (bulk_requests ext') \<and> snd y = Exit 1)"
  proof (intro allI impI)
    fix m assume m: "m < length (bulk_requests ext')"
    show "bulk_resp W (k + m) \<noteq> TransportError \<or>
                       (Suc m = length (bulk_requests ext') \<and> snd y = Exit 1)"
    proof (cases m)
      case 0
      then show ?thesis using assms(2) by simp
    next
      case (Suc m')
      with m l have "m' < length (bulk_requests ext)" by simp
      with a have "bulk_resp W (Suc k + m') \<noteq> TransportError \<or>
                       (Suc m' = length (bulk_requests ext) \<and> snd y = Exit 1)" by blast
      then show ?thesis unfolding Suc l by simp
    qed
  qed
  moreover have "fst y = tr @ ext'" using e by (simp add: ext'_def)
  ultimately show ?thesis unfolding failed_last_def list_all_iff by auto
qed

lemma transport_error_is_last:
  fixes J :: "'a json"
  assumes "upload_loop J W idx docs B i k tr = Some y"
  shows "failed_last W k tr y"
proof (rule upload_loop.raw_induct[where P = "\<lambda>J W idx docs B i k tr y. failed_last W k tr y",
      OF _ assms])
  fix f :: "'a json \<Rightarrow> world \<Rightarrow> string \<Rightarrow> 'a list \<Rightarrow> int \<Rightarrow> int \<Rightarrow> nat \<Rightarrow> event list
              \<Rightarrow> (event list \<times> status) option"
    and J :: "'a json" and W idx and docs :: "'a list" and B i k tr y
  assume IH: "\<And>J W idx docs B i k tr y. f J W idx docs B i k tr = Some y \<Longrightarrow> failed_last W k tr y"
  define end1 where "end1 = (if wrap64 (i + B) > int (length docs) then int (length docs)
                             else wrap64 (i + B))"
  assume "(if i < int (length docs) then
        (let end0 = wrap64 (i + B);
             end1 = (if end0 > int (length docs) then int (length docs) else end0)
         in if \<not> (0 \<le> i \<and> i \<le> end1) then Some (tr, Panic)
            else
              (case bulk_resp W k of
                 TransportError \<Rightarrow>
                   Some (tr @ [Bulk (bulk_body J idx (slice docs i end1)),
                               Log Fatal ''Error during bulk insert''], Exit 1)
               | Status _ \<Rightarrow>
                   f J W idx docs B (wrap64 (i + B)) (Suc k)
                     (tr @ [Bulk (bulk_body J idx (slice docs i end1)),
                            BatchInserted end1 (int (length docs))])))
      else Some (tr @ [Log Info ''Bulk load completed''], Exit 0)) = Some y"
  then have body: "(if i < int (length docs) then
         (if \<not> (0 \<le> i \<and> i \<le> end1) then Some (tr, Panic)
            else
              (case bulk_resp W k of
                 TransportError \<Rightarrow>
                   Some (tr @ [Bulk (bulk_body J idx (slice docs i end1)),
                               Log Fatal ''Error during bulk insert''], Exit 1)
               | Status _ \<Rightarrow>
                   f J W idx docs B (wrap64 (i + B)) (Suc k)
                     (tr @ [Bulk (bulk_body J idx (slice docs i end1)),
                            BatchInserted end1 (int (length docs))])))
      else Some (tr @ [Log Info ''Bulk load completed''], Exit 0)) = Some y"
    unfolding end1_def Let_def .
  show "failed_last W k tr y"
  proof (cases "i < int (length docs)")
    case False
    with body have "y = (tr @ [Log Info ''Bulk load completed''], Exit 0)" by simp
    then show ?thesis
      unfolding failed_last_def
      by (intro exI[of _ "[Log Info ''Bulk load completed'']"]) (simp add: bulk_requests_def)
  next
    case True
    show ?thesis
    proof (cases "0 \<le> i \<and> i \<le> end1")
      case False
      with True body have "y = (tr, Panic)" by simp
      then show ?thesis
        unfolding failed_last_def by (intro exI[of _ "[]"]) (simp add: bulk_requests_def)
    next
      case chk: True
      show ?thesis
      proof (cases "bulk_resp W k")
        case TransportError
        with True chk body have "y = (tr @ [Bulk (bulk_body J idx (slice docs i end1)),
                               Log Fatal ''Error during bulk insert''], Exit 1)" by simp
        then show ?thesis
          unfolding failed_last_def
          by (intro exI[of _ "[Bulk (bulk_body J idx (slice docs i end1)),
                               Log Fatal ''Error during bulk insert'']"])
             (simp add: bulk_requests_def)
      next
        case (Status st)
        with True chk body have "f J W idx docs B (wrap64 (i + B)) (Suc k)
                     (tr @ [Bulk (bulk_body J idx (slice docs i end1)),
                            BatchInserted end1 (int (length docs))]) = Some y" by simp
        from IH[OF this] show ?thesis
          by (rule failed_last_step) (simp add: Status)
      qed
    qed
  qed
qed

lemma main_transport_error_is_last:
  assumes "before_loop J W c = (t, Value docs)" and "main J W c = Some y"
  shows "failed_last W 0 t y"
  using assms(2) unfolding main_reaches_loop[OF assms(1)] by (rule transport_error_is_last)

end
